theory Spec2Isabelle
  imports Main
begin

section \<open>Go values and the store\<close>

text \<open>
  A Go \<^verbatim>\<open>string\<close> and a \<^verbatim>\<open>[]byte\<close> are byte sequences: both are \<^typ>\<open>string\<close> here,
  and a slice that may be \<^verbatim>\<open>nil\<close> is a \<^typ>\<open>string option\<close>.

  Go maps are reference values. \<^verbatim>\<open>http.Header\<close> is \<^verbatim>\<open>map[string][]string\<close> and
  \<^verbatim>\<open>Config.Params\<close> is \<^verbatim>\<open>map[string]string\<close>; a field of such a type holds either
  \<^verbatim>\<open>nil\<close> or a reference to a map object that other fields may share. The store keeps the
  map objects; a reference is the index of its object, and \<^verbatim>\<open>make\<close> appends a new object.
\<close>

type_synonym ref = nat
type_synonym header = "string \<rightharpoonup> string list"
type_synonym params = "string \<rightharpoonup> string"

record heap =
  header_objs :: "header list"
  params_objs :: "params list"

definition hdr_get :: "heap \<Rightarrow> ref \<Rightarrow> header" where
  "hdr_get h a = header_objs h ! a"

definition hdr_put :: "heap \<Rightarrow> ref \<Rightarrow> header \<Rightarrow> heap" where
  "hdr_put h a m = h\<lparr>header_objs := (header_objs h)[a := m]\<rparr>"

definition hdr_new :: "heap \<Rightarrow> ref \<times> heap" where
  "hdr_new h = (length (header_objs h), h\<lparr>header_objs := header_objs h @ [Map.empty]\<rparr>)"

definition prm_get :: "heap \<Rightarrow> ref \<Rightarrow> params" where
  "prm_get h a = params_objs h ! a"

definition prm_put :: "heap \<Rightarrow> ref \<Rightarrow> params \<Rightarrow> heap" where
  "prm_put h a m = h\<lparr>params_objs := (params_objs h)[a := m]\<rparr>"

definition prm_new :: "heap \<Rightarrow> ref \<times> heap" where
  "prm_new h = (length (params_objs h), h\<lparr>params_objs := params_objs h @ [Map.empty]\<rparr>)"

subsection \<open>The header operations of net/http used by the code\<close>

text \<open>
  \<^verbatim>\<open>Header.Set\<close> and \<^verbatim>\<open>Header.Add\<close> first canonicalise the key with
  \<^verbatim>\<open>textproto.CanonicalMIMEHeaderKey\<close>: a key made of header-token bytes only gets an upper
  case letter at the start and after every hyphen and lower case letters elsewhere; any
  other key is left as it is.
\<close>

definition lower_letters :: string where
  "lower_letters = ''abcdefghijklmnopqrstuvwxyz''"

definition upper_letters :: string where
  "upper_letters = ''ABCDEFGHIJKLMNOPQRSTUVWXYZ''"

definition validHeaderFieldByte :: "char \<Rightarrow> bool" where
  "validHeaderFieldByte c \<longleftrightarrow>
     c \<in> set (lower_letters @ upper_letters @ ''0123456789'' @ ''!#$%&*+-.^_`|~'' @ [CHR 0x27])"

definition toUpper :: "char \<Rightarrow> char" where
  "toUpper c = (case map_of (zip lower_letters upper_letters) c of None \<Rightarrow> c | Some u \<Rightarrow> u)"

definition toLower :: "char \<Rightarrow> char" where
  "toLower c = (case map_of (zip upper_letters lower_letters) c of None \<Rightarrow> c | Some l \<Rightarrow> l)"

fun canonicalBytes :: "bool \<Rightarrow> string \<Rightarrow> string" where
  "canonicalBytes upper [] = []"
| "canonicalBytes upper (c # cs) =
     (if upper then toUpper c else toLower c) #
     canonicalBytes ((if upper then toUpper c else toLower c) = CHR ''-'') cs"

definition CanonicalMIMEHeaderKey :: "string \<Rightarrow> string" where
  "CanonicalMIMEHeaderKey s =
     (if list_all validHeaderFieldByte s then canonicalBytes True s else s)"

definition Header_Set :: "header \<Rightarrow> string \<Rightarrow> string \<Rightarrow> header" where
  "Header_Set m key v = m(CanonicalMIMEHeaderKey key \<mapsto> [v])"

definition Header_Add :: "header \<Rightarrow> string \<Rightarrow> string \<Rightarrow> header" where
  "Header_Add m key v =
     m(CanonicalMIMEHeaderKey key \<mapsto>
         (case m (CanonicalMIMEHeaderKey key) of None \<Rightarrow> [] | Some vs \<Rightarrow> vs) @ [v])"

section \<open>Errors, requests and responses\<close>

text \<open>RequestError and HandleResponseError (package axios, error handling file).\<close>

record RequestError =
  StatusCode :: int
  Method :: string
  URL :: string
  Message :: string
  Body :: string

text \<open>
  The values of Go's \<^verbatim>\<open>error\<close> interface that occur: an error made outside this package
  (by an interceptor, the transport, a reader), known by its message; the result of
  \<^verbatim>\<open>fmt.Errorf("<text>: %w", err)\<close>, which keeps the text and wraps the cause; and a
  \<^verbatim>\<open>*RequestError\<close>.
\<close>

datatype error =
    External string
  | Wrapped string error
  | RequestErr RequestError

text \<open>
  A Go function either returns or panics. What it returns is a pair of a value and an
  error; where the code returns \<^verbatim>\<open>(nil, err)\<close> or \<^verbatim>\<open>(x, nil)\<close> only, the pair is a sum.
\<close>

datatype 'a go = Done 'a | Panic

text \<open>
  An \<^verbatim>\<open>*http.Request\<close> as this package uses it. It is passed on from one interceptor to the
  next and to the transport, so it is a value here. The field \<open>reqURL\<close> is the text that
  \<^verbatim>\<open>URL.String()\<close> gives.
\<close>

record 'ctx http_request =
  ctx :: 'ctx
  reqMethod :: string
  reqURL :: string
  header :: header
  body :: "string option"

text \<open>
  An \<^verbatim>\<open>*http.Response\<close>: \<open>readAll\<close> is what \<^verbatim>\<open>io.ReadAll(resp.Body)\<close> returns, the bytes
  read and the error if reading failed; \<open>request\<close> is the request that the transport
  answered.
\<close>

record 'ctx http_response =
  status :: string
  statusCode :: int
  respHeader :: header
  readAll :: "string \<times> error option"
  request :: "'ctx http_request"

text \<open>
  Functions of the Go library that the package calls and that are not modelled further:
  the constructor of requests, which may refuse its arguments, and the table of reason
  phrases.
\<close>

record 'ctx stdlib =
  NewRequestWithContext :: "'ctx \<Rightarrow> string \<Rightarrow> string \<Rightarrow> string option \<Rightarrow> error + 'ctx http_request"
  StatusText :: "int \<Rightarrow> string"

definition HandleResponseError :: "'ctx stdlib \<Rightarrow> 'ctx http_response \<Rightarrow> error option" where
  "HandleResponseError lib resp =
     (if statusCode resp \<ge> 400 then
        (let (body, err) = readAll resp;
             responseBody = (if err = None \<and> length body > 0 then body else [])
         in Some (RequestErr \<lparr>StatusCode = statusCode resp,
                               Method = reqMethod (request resp),
                               URL = reqURL (request resp),
                               Message = StatusText lib (statusCode resp),
                               Body = responseBody\<rparr>))
      else None)"

text \<open>Response and ParseResponse (package axios, response file).\<close>

record Response =
  Status :: string
  StatusCode :: int
  Body :: string
  Headers :: header

definition ParseResponse :: "'ctx http_response \<Rightarrow> Response option \<times> error option" where
  "ParseResponse resp =
     (let (body, err) = readAll resp
      in case err of
           Some e \<Rightarrow> (None, Some (Wrapped ''reading response body'' e))
         | None \<Rightarrow> (Some \<lparr>Status = status resp, StatusCode = statusCode resp,
                            Body = body, Headers = respHeader resp\<rparr>, None))"

definition IsSuccess :: "Response \<Rightarrow> bool" where
  "IsSuccess r \<longleftrightarrow> Response.StatusCode r \<ge> 200 \<and> Response.StatusCode r < 300"

section \<open>Config and mergeConfig (axios/config.go)\<close>

record Config =
  Method :: string
  URL :: string
  Headers :: "ref option"
  Params :: "ref option"
  Body :: "string option"
  Timeout :: int

text \<open>
  A \<^verbatim>\<open>range\<close> loop over a Go map visits the keys in an order that the language leaves
  open and that may change from one loop to the next. Every function with such a loop
  takes the order of that loop as an argument: the list of keys in the order visited.
  The value of a key is read from the map when the key is reached.
\<close>

fun mergeHeaders_loop :: "ref \<Rightarrow> ref \<Rightarrow> string list \<Rightarrow> heap \<Rightarrow> heap" where
  "mergeHeaders_loop d u [] h = h"
| "mergeHeaders_loop d u (key # keys) h =
     mergeHeaders_loop d u keys
       (case hdr_get h u key of
          None \<Rightarrow> h
        | Some vals \<Rightarrow> fold (\<lambda>v h'. hdr_put h' d (Header_Set (hdr_get h' d) key v)) vals h)"

definition mergeHeaders :: "string list \<Rightarrow> ref option \<Rightarrow> ref option \<Rightarrow> heap \<Rightarrow> ref option \<times> heap" where
  "mergeHeaders keys defaultHeaders userHeaders h =
     (let (d, h1) = (case defaultHeaders of None \<Rightarrow> hdr_new h | Some a \<Rightarrow> (a, h))
      in case userHeaders of
           None \<Rightarrow> (Some d, h1)
         | Some u \<Rightarrow> (Some d, mergeHeaders_loop d u keys h1))"

fun mergeParams_loop :: "ref \<Rightarrow> ref \<Rightarrow> string list \<Rightarrow> heap \<Rightarrow> heap" where
  "mergeParams_loop d u [] h = h"
| "mergeParams_loop d u (key # keys) h =
     mergeParams_loop d u keys
       (case prm_get h u key of
          None \<Rightarrow> h
        | Some v \<Rightarrow> prm_put h d ((prm_get h d)(key \<mapsto> v)))"

definition mergeParams :: "string list \<Rightarrow> ref option \<Rightarrow> ref option \<Rightarrow> heap \<Rightarrow> ref option \<times> heap" where
  "mergeParams keys defaultParams userParams h =
     (let (d, h1) = (case defaultParams of None \<Rightarrow> prm_new h | Some a \<Rightarrow> (a, h))
      in case userParams of
           None \<Rightarrow> (Some d, h1)
         | Some u \<Rightarrow> (Some d, mergeParams_loop d u keys h1))"

text \<open>
  \<open>hkeys\<close> and \<open>pkeys\<close> are the orders of the two iterations, over the user's headers and
  over the user's params. The struct copy \<^verbatim>\<open>finalConfig := defaultConfig\<close> copies the two
  map references, not the maps.
\<close>

definition mergeConfig :: "string list \<Rightarrow> string list \<Rightarrow> Config \<Rightarrow> Config \<Rightarrow> heap \<Rightarrow> Config \<times> heap" where
  "mergeConfig hkeys pkeys defaultConfig userConfig h =
     (let finalConfig = defaultConfig;
          finalConfig = (if Method userConfig \<noteq> [] then finalConfig\<lparr>Method := Method userConfig\<rparr>
                         else finalConfig);
          finalConfig = (if URL userConfig \<noteq> [] then finalConfig\<lparr>URL := URL userConfig\<rparr>
                         else finalConfig);
          (hs, h1) = mergeHeaders hkeys (Headers defaultConfig) (Headers userConfig) h;
          finalConfig = finalConfig\<lparr>Headers := hs\<rparr>;
          (ps, h2) = mergeParams pkeys (Params defaultConfig) (Params userConfig) h1;
          finalConfig = finalConfig\<lparr>Params := ps\<rparr>;
          finalConfig = (if Body userConfig \<noteq> None then finalConfig\<lparr>Body := Body userConfig\<rparr>
                         else finalConfig);
          finalConfig = (if Timeout userConfig \<noteq> 0 then finalConfig\<lparr>Timeout := Timeout userConfig\<rparr>
                         else finalConfig)
      in (finalConfig, h2))"

section \<open>Interceptors (axios/client.go, second part)\<close>

text \<open>
  The two fields of an Interceptor are Go function values: \<^verbatim>\<open>nil\<close> is \<open>None\<close>. A
  function value is a closure and may change what it has captured: it takes and returns
  the state \<open>'u\<close> of the caller's program. On success it returns the request (or
  response) for the next stage; a transform that returns \<^verbatim>\<open>nil\<close> together with no error
  is not considered. AddInterceptor appends to the slice of the manager.
\<close>

record ('ctx, 'u) Interceptor =
  Request :: "('ctx http_request \<Rightarrow> 'u \<Rightarrow> (error + 'ctx http_request) \<times> 'u) option"
  Response :: "(Response \<Rightarrow> 'u \<Rightarrow> (error + Response) \<times> 'u) option"

record ('ctx, 'u) InterceptorManager =
  interceptors :: "('ctx, 'u) Interceptor list"

definition NewInterceptorManager :: "('ctx, 'u) InterceptorManager" where
  "NewInterceptorManager = \<lparr>interceptors = []\<rparr>"

definition AddInterceptor ::
  "('ctx, 'u) InterceptorManager \<Rightarrow> ('ctx, 'u) Interceptor \<Rightarrow> ('ctx, 'u) InterceptorManager" where
  "AddInterceptor im i = im\<lparr>interceptors := interceptors im @ [i]\<rparr>"

text \<open>\<^verbatim>\<open>%d\<close> of a slice index.\<close>

fun itoa :: "nat \<Rightarrow> string" where
  "itoa n = (if n < 10 then [''0123456789'' ! n]
             else itoa (n div 10) @ [''0123456789'' ! (n mod 10)])"

declare itoa.simps [simp del]

text \<open>
  The iterations of ApplyRequestInterceptors and ApplyResponseInterceptors, from index \<open>idx\<close>
  on. Calling a \<^verbatim>\<open>nil\<close> function value panics.
\<close>

fun ApplyRequestInterceptors_from ::
  "nat \<Rightarrow> ('ctx, 'u) Interceptor list \<Rightarrow> 'ctx http_request \<Rightarrow> 'u
     \<Rightarrow> (error + 'ctx http_request) go \<times> 'u" where
  "ApplyRequestInterceptors_from idx [] req u = (Done (Inr req), u)"
| "ApplyRequestInterceptors_from idx (interceptor # rest) req u =
     (case Request interceptor of
        None \<Rightarrow> (Panic, u)
      | Some f \<Rightarrow>
          (case f req u of
             (Inl err, u') \<Rightarrow>
               (Done (Inl (Wrapped (''request interceptor '' @ itoa idx @ '' failed'') err)), u')
           | (Inr req', u') \<Rightarrow> ApplyRequestInterceptors_from (Suc idx) rest req' u'))"

definition ApplyRequestInterceptors ::
  "('ctx, 'u) InterceptorManager \<Rightarrow> 'ctx http_request \<Rightarrow> 'u
     \<Rightarrow> (error + 'ctx http_request) go \<times> 'u" where
  "ApplyRequestInterceptors im req u = ApplyRequestInterceptors_from 0 (interceptors im) req u"

fun ApplyResponseInterceptors_from ::
  "nat \<Rightarrow> ('ctx, 'u) Interceptor list \<Rightarrow> Response \<Rightarrow> 'u \<Rightarrow> (error + Response) go \<times> 'u" where
  "ApplyResponseInterceptors_from idx [] resp u = (Done (Inr resp), u)"
| "ApplyResponseInterceptors_from idx (interceptor # rest) resp u =
     (case Response interceptor of
        None \<Rightarrow> (Panic, u)
      | Some f \<Rightarrow>
          (case f resp u of
             (Inl err, u') \<Rightarrow>
               (Done (Inl (Wrapped (''response interceptor '' @ itoa idx @ '' failed'') err)), u')
           | (Inr resp', u') \<Rightarrow> ApplyResponseInterceptors_from (Suc idx) rest resp' u'))"

definition ApplyResponseInterceptors ::
  "('ctx, 'u) InterceptorManager \<Rightarrow> Response \<Rightarrow> 'u \<Rightarrow> (error + Response) go \<times> 'u" where
  "ApplyResponseInterceptors im resp u = ApplyResponseInterceptors_from 0 (interceptors im) resp u"

section \<open>The client (axios/client.go, first part)\<close>

text \<open>
  The \<^verbatim>\<open>*http.Client\<close> of a Client is represented by its method \<^verbatim>\<open>Do\<close>: the transport,
  which answers a request with an error or a response and may change the state of the
  world outside; NewClient always sets it. The interceptor manager is a pointer that the
  code tests against \<^verbatim>\<open>nil\<close>.
\<close>

record ('ctx, 'u) Client =
  httpClient :: "'ctx http_request \<Rightarrow> 'u \<Rightarrow> (error + 'ctx http_response) \<times> 'u"
  config :: Config
  interceptorManager :: "('ctx, 'u) InterceptorManager option"

definition prepareRequestBody :: "Config \<Rightarrow> error + string option" where
  "prepareRequestBody cfg =
     (case Config.Body cfg of None \<Rightarrow> Inr None | Some b \<Rightarrow> Inr (Some b))"

text \<open>The loop of Request that copies the headers of the final configuration.\<close>

fun addHeaders :: "header \<Rightarrow> string list \<Rightarrow> header \<Rightarrow> header" where
  "addHeaders cfgHeaders [] reqHeader = reqHeader"
| "addHeaders cfgHeaders (key # keys) reqHeader =
     addHeaders cfgHeaders keys
       (case cfgHeaders key of
          None \<Rightarrow> reqHeader
        | Some vals \<Rightarrow> fold (\<lambda>v rh. Header_Add rh key v) vals reqHeader)"

text \<open>Request, lines 95 to 101: the request interceptors, if there is a manager.\<close>

definition Request_interceptors ::
  "('ctx, 'u) Client \<Rightarrow> 'ctx http_request \<Rightarrow> 'u \<Rightarrow> (error + 'ctx http_request) go \<times> 'u" where
  "Request_interceptors c req u =
     (case interceptorManager c of
        None \<Rightarrow> (Done (Inr req), u)
      | Some im \<Rightarrow> ApplyRequestInterceptors im req u)"

text \<open>
  Request, lines 81 to 108: everything before the transport is called. The result is
  either what Request returns early, or the request that goes to the transport.
  \<open>hkeys\<close> and \<open>pkeys\<close> are the loop orders of mergeConfig, \<open>akeys\<close> the order of the loop
  over the headers of the final configuration.
\<close>

definition Request_outgoing ::
  "'ctx stdlib \<Rightarrow> string list \<Rightarrow> string list \<Rightarrow> string list \<Rightarrow> ('ctx, 'u) Client \<Rightarrow> 'ctx \<Rightarrow> Config
     \<Rightarrow> heap \<Rightarrow> 'u \<Rightarrow> ((Response option \<times> error option) go + 'ctx http_request) \<times> heap \<times> 'u" where
  "Request_outgoing lib hkeys pkeys akeys c cx cfg h u =
     (let (finalConfig, h1) = mergeConfig hkeys pkeys (config c) cfg h
      in case prepareRequestBody finalConfig of
           Inl err \<Rightarrow> (Inl (Done (None, Some (Wrapped ''preparing request body'' err))), h1, u)
         | Inr reqBody \<Rightarrow>
      (case NewRequestWithContext lib cx (Config.Method finalConfig) (Config.URL finalConfig) reqBody of
           Inl err \<Rightarrow> (Inl (Done (None, Some (Wrapped ''creating request'' err))), h1, u)
         | Inr req \<Rightarrow>
      (case Request_interceptors c req u of
           (Panic, u1) \<Rightarrow> (Inl Panic, h1, u1)
         | (Done (Inl err), u1) \<Rightarrow>
             (Inl (Done (None, Some (Wrapped ''applying request interceptors'' err))), h1, u1)
         | (Done (Inr req1), u1) \<Rightarrow>
             (Inr (case Config.Headers finalConfig of
                     None \<Rightarrow> req1
                   | Some a \<Rightarrow> req1\<lparr>header := addHeaders (hdr_get h1 a) akeys (header req1)\<rparr>),
              h1, u1))))"

text \<open>Request, lines 110 to 122: the transport is called and its answer classified.\<close>

definition Request_exchange ::
  "'ctx stdlib \<Rightarrow> ('ctx, 'u) Client \<Rightarrow> 'ctx http_request \<Rightarrow> heap \<Rightarrow> 'u
     \<Rightarrow> (Response option \<times> error option) go \<times> heap \<times> 'u" where
  "Request_exchange lib c req h1 u1 =
     (case httpClient c req u1 of
        (Inl err, u2) \<Rightarrow> (Done (None, Some (Wrapped ''executing request'' err)), h1, u2)
      | (Inr resp, u2) \<Rightarrow>
          if statusCode resp \<ge> 400 then (Done (None, HandleResponseError lib resp), h1, u2)
          else (Done (ParseResponse resp), h1, u2))"

text \<open>Request as a whole (the method of Client; the name Request is the field above).\<close>

definition Client_Request ::
  "'ctx stdlib \<Rightarrow> string list \<Rightarrow> string list \<Rightarrow> string list \<Rightarrow> ('ctx, 'u) Client \<Rightarrow> 'ctx \<Rightarrow> Config
     \<Rightarrow> heap \<Rightarrow> 'u \<Rightarrow> (Response option \<times> error option) go \<times> heap \<times> 'u" where
  "Client_Request lib hkeys pkeys akeys c cx cfg h u =
     (case Request_outgoing lib hkeys pkeys akeys c cx cfg h u of
        (Inl early, h1, u1) \<Rightarrow> (early, h1, u1)
      | (Inr req, h1, u1) \<Rightarrow> Request_exchange lib c req h1 u1)"

definition CancelableRequest ::
  "'ctx stdlib \<Rightarrow> string list \<Rightarrow> string list \<Rightarrow> string list \<Rightarrow> ('ctx, 'u) Client \<Rightarrow> 'ctx \<Rightarrow> Config
     \<Rightarrow> heap \<Rightarrow> 'u \<Rightarrow> (Response option \<times> error option) go \<times> heap \<times> 'u" where
  "CancelableRequest lib hkeys pkeys akeys c cx cfg h u =
     Client_Request lib hkeys pkeys akeys c cx cfg h u"

section \<open>Notions used in the statements\<close>

text \<open>The values of a key in a header map: the list stored there, empty if there is none.\<close>

definition values_at :: "header \<Rightarrow> string \<Rightarrow> string list" where
  "values_at m k = (case m k of None \<Rightarrow> [] | Some vs \<Rightarrow> vs)"

text \<open>A client whose interceptors have other response transforms, chosen by \<open>g\<close>.\<close>

definition withResponses ::
  "(('ctx, 'u) Interceptor \<Rightarrow> (Response \<Rightarrow> 'u \<Rightarrow> (error + Response) \<times> 'u) option)
     \<Rightarrow> ('ctx, 'u) Client \<Rightarrow> ('ctx, 'u) Client" where
  "withResponses g c =
     c\<lparr>interceptorManager :=
         map_option (\<lambda>im. im\<lparr>interceptors := map (\<lambda>i. i\<lparr>Response := g i\<rparr>) (interceptors im)\<rparr>)
           (interceptorManager c)\<rparr>"

text \<open>One visit of the loop of mergeHeaders, on the maps: \<open>U\<close> is the user's map.\<close>

definition set_last :: "header \<Rightarrow> string \<Rightarrow> header \<Rightarrow> header" where
  "set_last U key m =
     (case U key of None \<Rightarrow> m
      | Some vals \<Rightarrow> if vals = [] then m else m(CanonicalMIMEHeaderKey key \<mapsto> [last vals]))"

text \<open>
  The map \<open>m\<close> already has, for every key of \<open>U\<close> with values, the last of them under
  the canonical key: a further run of the loop changes nothing.
\<close>

definition settled :: "header \<Rightarrow> header \<Rightarrow> bool" where
  "settled U m \<longleftrightarrow>
     (\<forall>k vals. U k = Some vals \<longrightarrow> vals \<noteq> [] \<longrightarrow> m (CanonicalMIMEHeaderKey k) = Some [last vals])"

text \<open>The user's map is the default map: every entry is an old one or the last value of an old one.\<close>

definition derived :: "header \<Rightarrow> header \<Rightarrow> bool" where
  "derived D m \<longleftrightarrow>
     (\<forall>K. m K = D K \<or>
          (\<exists>k vals. D k = Some vals \<and> vals \<noteq> [] \<and> CanonicalMIMEHeaderKey k = K \<and>
                     m K = Some [last vals]))"

text \<open>The keys in \<open>V\<close> have been visited: their last values are in place.\<close>

definition covered :: "header \<Rightarrow> string set \<Rightarrow> header \<Rightarrow> bool" where
  "covered D V m \<longleftrightarrow>
     (\<forall>k\<in>V. \<forall>vals. D k = Some vals \<longrightarrow> vals \<noteq> [] \<longrightarrow>
        m (CanonicalMIMEHeaderKey k) = Some [last vals])"

text \<open>One visit of the loop of mergeParams, on the maps.\<close>

definition set_param :: "params \<Rightarrow> string \<Rightarrow> params \<Rightarrow> params" where
  "set_param U key m = (case U key of None \<Rightarrow> m | Some v \<Rightarrow> m(key \<mapsto> v))"

text \<open>The map references of a configuration point to objects of the store.\<close>

definition allocated :: "heap \<Rightarrow> Config \<Rightarrow> bool" where
  "allocated h cfg \<longleftrightarrow>
     (case Headers cfg of None \<Rightarrow> True | Some a \<Rightarrow> a < length (header_objs h)) \<and>
     (case Params cfg of None \<Rightarrow> True | Some a \<Rightarrow> a < length (params_objs h))"

text \<open>
  The two loop orders have every key of the header map and of the params map of the
  configuration: a \<^verbatim>\<open>range\<close> loop visits every key that its map has when the loop
  starts (and it may visit keys that the loop itself adds).
\<close>

definition visits_all_keys :: "heap \<Rightarrow> Config \<Rightarrow> string list \<Rightarrow> string list \<Rightarrow> bool" where
  "visits_all_keys h cfg hkeys pkeys \<longleftrightarrow>
     (case Headers cfg of None \<Rightarrow> True | Some a \<Rightarrow> dom (hdr_get h a) \<subseteq> set hkeys) \<and>
     (case Params cfg of None \<Rightarrow> True | Some a \<Rightarrow> dom (prm_get h a) \<subseteq> set pkeys)"

text \<open>No two keys of the header map have the same canonical form.\<close>

definition distinct_canonical_keys :: "heap \<Rightarrow> Config \<Rightarrow> bool" where
  "distinct_canonical_keys h cfg \<longleftrightarrow>
     (case Headers cfg of None \<Rightarrow> True
      | Some a \<Rightarrow> inj_on CanonicalMIMEHeaderKey (dom (hdr_get h a)))"

text \<open>
  The value of a configuration in a store: its fields, with the contents of its maps in
  place of the references.
\<close>

definition config_value ::
  "Config \<times> heap \<Rightarrow> string \<times> string \<times> header option \<times> params option \<times> string option \<times> int" where
  "config_value r =
     (Method (fst r), URL (fst r), map_option (hdr_get (snd r)) (Headers (fst r)),
      map_option (prm_get (snd r)) (Params (fst r)), Body (fst r), Timeout (fst r))"

section \<open>Example values\<close>

text \<open>
  A library whose request constructor refuses the empty url; interceptors that put a mark
  on the request or fail, and record their name in the state, a list of names; a transport
  that answers with a given status code, and one that fails; a client whose configuration
  has the header map at reference 0.
\<close>

definition exLib :: "unit stdlib" where
  "exLib = \<lparr>NewRequestWithContext =
              (\<lambda>cx m u b. if u = [] then Inl (External ''empty url'')
                 else Inr \<lparr>ctx = cx, reqMethod = (if m = [] then ''GET'' else m), reqURL = u,
                           header = Map.empty, body = b\<rparr>),
            StatusText = (\<lambda>n. if n = 200 then ''OK'' else if n = 500 then ''Internal Server Error'' else [])\<rparr>"

definition exMark :: "string \<Rightarrow> (unit, string list) Interceptor" where
  "exMark name =
     \<lparr>Request = Some (\<lambda>req u. (Inr (req\<lparr>header := Header_Add (header req) ''X-Mark'' name\<rparr>), u @ [name])),
      Response = Some (\<lambda>resp u. (Inr (resp\<lparr>Response.Body := Response.Body resp @ name\<rparr>), u @ [name]))\<rparr>"

definition exFail :: "string \<Rightarrow> (unit, string list) Interceptor" where
  "exFail name =
     \<lparr>Request = Some (\<lambda>req u. (Inl (External name), u @ [name])),
      Response = Some (\<lambda>resp u. (Inl (External name), u @ [name]))\<rparr>"

definition exServe :: "int \<Rightarrow> string \<Rightarrow> unit http_request \<Rightarrow> string list \<Rightarrow> (error + unit http_response) \<times> string list" where
  "exServe code text req u =
     (Inr \<lparr>status = [], statusCode = code, respHeader = Map.empty, readAll = (text, None), request = req\<rparr>,
      u @ [''transport''])"

definition exDown :: "unit http_request \<Rightarrow> string list \<Rightarrow> (error + unit http_response) \<times> string list" where
  "exDown req u = (Inl (External ''context canceled''), u @ [''transport''])"

definition exClient ::
  "(unit http_request \<Rightarrow> string list \<Rightarrow> (error + unit http_response) \<times> string list)
     \<Rightarrow> (unit, string list) Interceptor list \<Rightarrow> (unit, string list) Client" where
  "exClient tr is =
     \<lparr>httpClient = tr,
      config = \<lparr>Method = [], URL = [], Headers = Some 0, Params = None, Body = None, Timeout = 10\<rparr>,
      interceptorManager = Some \<lparr>interceptors = is\<rparr>\<rparr>"

definition exGet :: Config where
  "exGet = \<lparr>Method = ''GET'', URL = ''http://a'', Headers = None, Params = None, Body = None, Timeout = 0\<rparr>"

definition exHeap :: heap where
  "exHeap = \<lparr>header_objs = [[''X-Mark'' \<mapsto> [''c1'', ''c2'']]], params_objs = []\<rparr>"

definition exRequest :: "unit http_request" where
  "exRequest = \<lparr>ctx = (), reqMethod = ''GET'', reqURL = ''http://a'', header = Map.empty, body = None\<rparr>"

definition exResponse :: Response where
  "exResponse = \<lparr>Status = ''200 OK'', StatusCode = 200, Response.Body = [], Response.Headers = Map.empty\<rparr>"

text \<open>
  A base and an override with header and params maps of their own, for mergeConfig; and
  an override whose header map has the keys a and A, merged into a base without maps,
  first visiting a before A, then a second time visiting A before a.
\<close>

definition exMergeHeap :: heap where
  "exMergeHeap = \<lparr>header_objs = [[''A'' \<mapsto> [''1'']], [''A'' \<mapsto> [''2'', ''3'']]],
                  params_objs = [[''p'' \<mapsto> ''1''], [''p'' \<mapsto> ''2'', ''q'' \<mapsto> ''3'']]\<rparr>"

definition exBase :: Config where
  "exBase = \<lparr>Method = ''GET'', URL = ''http://a'', Headers = Some 0, Params = Some 0, Body = None,
              Timeout = 10\<rparr>"

definition exOverride :: Config where
  "exOverride = \<lparr>Method = ''POST'', URL = [], Headers = Some 1, Params = Some 1, Body = Some ''x'',
                  Timeout = 0\<rparr>"

definition exCaseHeap :: heap where
  "exCaseHeap = \<lparr>header_objs = [[''a'' \<mapsto> [''1''], ''A'' \<mapsto> [''2'']]], params_objs = []\<rparr>"

definition exNoMaps :: Config where
  "exNoMaps = \<lparr>Method = ''GET'', URL = ''http://a'', Headers = None, Params = None, Body = None,
                Timeout = 10\<rparr>"

definition exTwoCases :: Config where
  "exTwoCases = \<lparr>Method = [], URL = [], Headers = Some 0, Params = None, Body = None, Timeout = 0\<rparr>"

definition exCasesFirst :: "Config \<times> heap" where
  "exCasesFirst = mergeConfig [''a'', ''A''] [] exNoMaps exTwoCases exCaseHeap"

definition exCasesSecond :: "Config \<times> heap" where
  "exCasesSecond = mergeConfig [''A'', ''a''] [] (fst exCasesFirst) exTwoCases (snd exCasesFirst)"

section \<open>Evaluation of concrete inputs\<close>

lemmas canon_simps = CanonicalMIMEHeaderKey_def validHeaderFieldByte_def toUpper_def toLower_def
  lower_letters_def upper_letters_def

lemma canon_X_Mark: "CanonicalMIMEHeaderKey ''X-Mark'' = ''X-Mark''"
  by (simp add: canon_simps)

lemma canon_A: "CanonicalMIMEHeaderKey ''A'' = ''A''"
  by (simp add: canon_simps)

lemma canon_a: "CanonicalMIMEHeaderKey ''a'' = ''A''"
  by (simp add: canon_simps)

section \<open>Properties of mergeConfig\<close>

text \<open>
  C8. For all configurations A and B: if the Method of B is a non-empty string, the Method
  of the merged configuration is B's, and if it is empty it is A's; the same rule holds for
  the URL.
\<close>

theorem mergeConfig_method_url_precedence:
  "(Method B \<noteq> [] \<longrightarrow> Method (fst (mergeConfig hkeys pkeys A B h)) = Method B) \<and>
   (Method B = [] \<longrightarrow> Method (fst (mergeConfig hkeys pkeys A B h)) = Method A) \<and>
   (URL B \<noteq> [] \<longrightarrow> URL (fst (mergeConfig hkeys pkeys A B h)) = URL B) \<and>
   (URL B = [] \<longrightarrow> URL (fst (mergeConfig hkeys pkeys A B h)) = URL A)"
  by (simp add: mergeConfig_def Let_def split: prod.splits)

text \<open>
  The override \<^verbatim>\<open>{Method: "POST"}\<close> on the base \<^verbatim>\<open>{Method: "GET", URL: "http://a", Timeout: 15}\<close>:
  the method is the override's, the url the base's.
\<close>

theorem mergeConfig_method_url_precedence_witness:
  "Method \<lparr>Method = ''POST'', URL = [], Headers = None, Params = None, Body = None, Timeout = 0\<rparr> \<noteq> [] \<and>
   URL \<lparr>Method = ''POST'', URL = [], Headers = None, Params = None, Body = None, Timeout = 0\<rparr> = [] \<and>
   Method (fst (mergeConfig [] []
      \<lparr>Method = ''GET'', URL = ''http://a'', Headers = None, Params = None, Body = None, Timeout = 15\<rparr>
      \<lparr>Method = ''POST'', URL = [], Headers = None, Params = None, Body = None, Timeout = 0\<rparr>
      \<lparr>header_objs = [], params_objs = []\<rparr>)) = ''POST'' \<and>
   URL (fst (mergeConfig [] []
      \<lparr>Method = ''GET'', URL = ''http://a'', Headers = None, Params = None, Body = None, Timeout = 15\<rparr>
      \<lparr>Method = ''POST'', URL = [], Headers = None, Params = None, Body = None, Timeout = 0\<rparr>
      \<lparr>header_objs = [], params_objs = []\<rparr>)) = ''http://a''"
  using mergeConfig_method_url_precedence
    [where A = "\<lparr>Method = ''GET'', URL = ''http://a'', Headers = None, Params = None, Body = None, Timeout = 15\<rparr>"
       and B = "\<lparr>Method = ''POST'', URL = [], Headers = None, Params = None, Body = None, Timeout = 0\<rparr>"
       and hkeys = "[]" and pkeys = "[]" and h = "\<lparr>header_objs = [], params_objs = []\<rparr>"]
  by simp

subsection \<open>The canonical form of a key is canonical\<close>

lemma toUpper_idem: "toUpper (toUpper c) = toUpper c"
  by (simp add: toUpper_def lower_letters_def upper_letters_def)

lemma toLower_idem: "toLower (toLower c) = toLower c"
  by (simp add: toLower_def lower_letters_def upper_letters_def)

lemma valid_toUpper: "validHeaderFieldByte c \<Longrightarrow> validHeaderFieldByte (toUpper c)"
  by (auto simp add: validHeaderFieldByte_def toUpper_def lower_letters_def upper_letters_def)

lemma valid_toLower: "validHeaderFieldByte c \<Longrightarrow> validHeaderFieldByte (toLower c)"
  by (auto simp add: validHeaderFieldByte_def toLower_def lower_letters_def upper_letters_def)

lemma canonicalBytes_idem: "canonicalBytes b (canonicalBytes b s) = canonicalBytes b s"
  by (induction s arbitrary: b) (simp_all add: toUpper_idem toLower_idem)

lemma canonicalBytes_valid:
  "list_all validHeaderFieldByte s \<Longrightarrow> list_all validHeaderFieldByte (canonicalBytes b s)"
  by (induction s arbitrary: b) (simp_all add: valid_toUpper valid_toLower)

lemma CanonicalMIMEHeaderKey_idem:
  "CanonicalMIMEHeaderKey (CanonicalMIMEHeaderKey s) = CanonicalMIMEHeaderKey s"
  by (simp add: CanonicalMIMEHeaderKey_def canonicalBytes_idem canonicalBytes_valid)

subsection \<open>The store\<close>

lemma hdr_get_put_same: "a < length (header_objs h) \<Longrightarrow> hdr_get (hdr_put h a m) a = m"
  by (simp add: hdr_get_def hdr_put_def)

lemma hdr_get_put_other: "a \<noteq> b \<Longrightarrow> hdr_get (hdr_put h a m) b = hdr_get h b"
  by (simp add: hdr_get_def hdr_put_def)

lemma hdr_put_put: "hdr_put (hdr_put h a m) a m' = hdr_put h a m'"
  by (simp add: hdr_put_def)

lemma hdr_put_get: "hdr_put h a (hdr_get h a) = h"
  by (simp add: hdr_put_def hdr_get_def)

lemma header_objs_hdr_put_length: "length (header_objs (hdr_put h a m)) = length (header_objs h)"
  by (simp add: hdr_put_def)

lemma params_objs_hdr_put: "params_objs (hdr_put h a m) = params_objs h"
  by (simp add: hdr_put_def)

subsection \<open>The loop of mergeHeaders\<close>

lemma fold_Header_Set:
  "fold (\<lambda>v h'. hdr_put h' d (Header_Set (hdr_get h' d) key v)) vals h =
     (if vals = [] then h
      else hdr_put h d ((hdr_get h d)(CanonicalMIMEHeaderKey key \<mapsto> [last vals])))"
proof (cases "d < length (header_objs h)")
  case True
  then show ?thesis
  proof (induction vals arbitrary: h)
    case Nil
    then show ?case by simp
  next
    case (Cons v vals)
    let ?h1 = "hdr_put h d (Header_Set (hdr_get h d) key v)"
    have l: "d < length (header_objs ?h1)"
      using Cons.prems by (simp add: header_objs_hdr_put_length)
    have g: "hdr_get ?h1 d = Header_Set (hdr_get h d) key v"
      using Cons.prems by (rule hdr_get_put_same)
    have s: "(Header_Set (hdr_get h d) key v)(CanonicalMIMEHeaderKey key \<mapsto> [last vals]) =
        (hdr_get h d)(CanonicalMIMEHeaderKey key \<mapsto> [last vals])"
      by (simp add: Header_Set_def)
    have "fold (\<lambda>v h'. hdr_put h' d (Header_Set (hdr_get h' d) key v)) (v # vals) h =
        fold (\<lambda>v h'. hdr_put h' d (Header_Set (hdr_get h' d) key v)) vals ?h1"
      by simp
    also have "\<dots> = (if vals = [] then ?h1
        else hdr_put ?h1 d ((hdr_get ?h1 d)(CanonicalMIMEHeaderKey key \<mapsto> [last vals])))"
      by (rule Cons.IH [OF l])
    also have "\<dots> = hdr_put h d ((hdr_get h d)(CanonicalMIMEHeaderKey key \<mapsto> [last (v # vals)]))"
    proof (cases "vals = []")
      case True
      then show ?thesis by (simp add: Header_Set_def)
    next
      case False
      then show ?thesis by (simp only: g s hdr_put_put) simp
    qed
    finally show ?case by simp
  qed
next
  case False
  then have "(header_objs h)[d := m] = header_objs h" for m
    by (simp add: not_less list_update_beyond)
  then have *: "hdr_put h d m = h" for m
    by (simp add: hdr_put_def)
  have "fold (\<lambda>v h'. hdr_put h' d (Header_Set (hdr_get h' d) key v)) vals h = h"
    by (induction vals) (simp_all add: *)
  then show ?thesis by (simp add: *)
qed

lemma mergeHeaders_loop_step:
  "mergeHeaders_loop d u (key # keys) h =
     mergeHeaders_loop d u keys (hdr_put h d (set_last (hdr_get h u) key (hdr_get h d)))"
  by (simp add: fold_Header_Set set_last_def hdr_put_get split: option.splits)

lemma set_last_settled: "settled U m \<Longrightarrow> set_last U key m = m"
  by (auto simp: settled_def set_last_def split: option.splits)

lemma mergeHeaders_loop_settled:
  "settled (hdr_get h u) (hdr_get h d) \<Longrightarrow> mergeHeaders_loop d u keys h = h"
proof (induction keys)
  case Nil
  then show ?case by simp
next
  case (Cons key keys)
  then show ?case
    by (simp only: mergeHeaders_loop_step set_last_settled hdr_put_get)
qed

text \<open>The loop when the two maps are different objects.\<close>

lemma mergeHeaders_loop_apart:
  assumes "d \<noteq> u" "d < length (header_objs h)"
  shows "mergeHeaders_loop d u keys h =
           hdr_put h d (fold (set_last (hdr_get h u)) keys (hdr_get h d))"
  using assms(2)
proof (induction keys arbitrary: h)
  case Nil
  then show ?case by (simp add: hdr_put_get)
next
  case (Cons key keys)
  let ?h = "hdr_put h d (set_last (hdr_get h u) key (hdr_get h d))"
  have "d < length (header_objs ?h)"
    using Cons.prems by (simp add: header_objs_hdr_put_length)
  from Cons.IH [OF this] show ?case
    using assms(1) Cons.prems
    by (simp only: mergeHeaders_loop_step)
       (simp add: hdr_get_put_other hdr_get_put_same hdr_put_put)
qed

text \<open>The loop when the user's map is the default map itself.\<close>

lemma mergeHeaders_loop_same:
  assumes "d < length (header_objs h)"
  shows "mergeHeaders_loop d d keys h =
           hdr_put h d (fold (\<lambda>key m. set_last m key m) keys (hdr_get h d))"
  using assms
proof (induction keys arbitrary: h)
  case Nil
  then show ?case by (simp add: hdr_put_get)
next
  case (Cons key keys)
  let ?h = "hdr_put h d (set_last (hdr_get h d) key (hdr_get h d))"
  have "d < length (header_objs ?h)"
    using Cons.prems by (simp add: header_objs_hdr_put_length)
  from Cons.IH [OF this] show ?case
    using Cons.prems
    by (simp only: mergeHeaders_loop_step)
       (simp add: hdr_get_put_same hdr_put_put)
qed

subsection \<open>The loop of mergeHeaders on the maps\<close>

lemma set_last_other:
  "K \<noteq> CanonicalMIMEHeaderKey key \<Longrightarrow> set_last U key m K = m K"
  by (simp add: set_last_def split: option.splits)

lemma set_last_at:
  "U key = Some vals \<Longrightarrow> vals \<noteq> [] \<Longrightarrow>
     set_last U key m (CanonicalMIMEHeaderKey key) = Some [last vals]"
  by (simp add: set_last_def)

lemma set_last_skip: "U key = None \<or> U key = Some [] \<Longrightarrow> set_last U key m = m"
  by (auto simp: set_last_def)

lemma fold_set_last_at:
  assumes "inj_on CanonicalMIMEHeaderKey (dom U)" "U k = Some vals" "vals \<noteq> []" "k \<in> set keys"
  shows "fold (set_last U) keys m (CanonicalMIMEHeaderKey k) = Some [last vals]"
  using assms(4)
proof (induction keys rule: rev_induct)
  case Nil
  then show ?case by simp
next
  case (snoc key keys)
  show ?case
  proof (cases "key = k")
    case True
    with assms(2,3) show ?thesis by (simp add: set_last_at)
  next
    case False
    with snoc have ih: "fold (set_last U) keys m (CanonicalMIMEHeaderKey k) = Some [last vals]"
      by simp
    show ?thesis
    proof (cases "U key = None \<or> U key = Some []")
      case True
      then show ?thesis using ih by (simp add: set_last_skip)
    next
      case False
      then have "key \<in> dom U" by auto
      moreover have "k \<in> dom U" using assms(2) by auto
      ultimately have "CanonicalMIMEHeaderKey k \<noteq> CanonicalMIMEHeaderKey key"
        using assms(1) \<open>key \<noteq> k\<close> by (auto dest: inj_onD)
      then show ?thesis using ih by (simp add: set_last_other)
    qed
  qed
qed

lemma fold_set_last_settled:
  assumes "inj_on CanonicalMIMEHeaderKey (dom U)" "dom U \<subseteq> set keys"
  shows "settled U (fold (set_last U) keys m)"
  unfolding settled_def
proof (intro allI impI)
  fix k vals
  assume "U k = Some vals" "vals \<noteq> []"
  moreover from this assms(2) have "k \<in> set keys" by auto
  ultimately show "fold (set_last U) keys m (CanonicalMIMEHeaderKey k) = Some [last vals]"
    using assms(1) by (simp add: fold_set_last_at)
qed

lemma derived_refl: "derived D D"
  by (simp add: derived_def)

lemma derived_read:
  assumes "derived D m" "inj_on CanonicalMIMEHeaderKey (dom D)" "m key = Some vals" "vals \<noteq> []"
  shows "\<exists>k vals'. D k = Some vals' \<and> vals' \<noteq> [] \<and> last vals' = last vals \<and>
           CanonicalMIMEHeaderKey k = CanonicalMIMEHeaderKey key"
proof -
  from assms(1) have "m key = D key \<or>
      (\<exists>k vals'. D k = Some vals' \<and> vals' \<noteq> [] \<and> CanonicalMIMEHeaderKey k = key \<and>
                 m key = Some [last vals'])"
    by (simp add: derived_def)
  then show ?thesis
  proof
    assume "m key = D key"
    with assms(3,4) show ?thesis by auto
  next
    assume "\<exists>k vals'. D k = Some vals' \<and> vals' \<noteq> [] \<and> CanonicalMIMEHeaderKey k = key \<and>
                 m key = Some [last vals']"
    then obtain k vals' where "D k = Some vals'" "vals' \<noteq> []" "CanonicalMIMEHeaderKey k = key"
      "m key = Some [last vals']" by blast
    with assms(3) show ?thesis
      by (intro exI [of _ k] exI [of _ vals']) (auto simp: CanonicalMIMEHeaderKey_idem)
  qed
qed

lemma derived_step:
  assumes "derived D m" "inj_on CanonicalMIMEHeaderKey (dom D)"
  shows "derived D (set_last m key m)"
proof (cases "m key = None \<or> m key = Some []")
  case True
  then show ?thesis using assms(1) by (simp add: set_last_skip)
next
  case False
  then obtain vals where v: "m key = Some vals" "vals \<noteq> []" by auto
  from derived_read [OF assms v] obtain k vals' where
    k: "D k = Some vals'" "vals' \<noteq> []" "last vals' = last vals"
       "CanonicalMIMEHeaderKey k = CanonicalMIMEHeaderKey key"
    by blast
  show ?thesis
    unfolding derived_def
  proof
    fix K
    show "set_last m key m K = D K \<or>
        (\<exists>k vals. D k = Some vals \<and> vals \<noteq> [] \<and> CanonicalMIMEHeaderKey k = K \<and>
                   set_last m key m K = Some [last vals])"
    proof (cases "K = CanonicalMIMEHeaderKey key")
      case True
      have "set_last m key m K = Some [last vals']"
        using True v k(3) by (simp add: set_last_at)
      with k True show ?thesis by blast
    next
      case False
      with assms(1) show ?thesis by (simp add: set_last_other derived_def)
    qed
  qed
qed

lemma covered_step:
  assumes "derived D m" "inj_on CanonicalMIMEHeaderKey (dom D)" "covered D V m"
  shows "covered D (insert key V) (set_last m key m)"
proof (cases "m key = None \<or> m key = Some []")
  case True
  have "D key = Some vals \<Longrightarrow> vals \<noteq> [] \<Longrightarrow> False" for vals
  proof -
    assume d: "D key = Some vals" "vals \<noteq> []"
    from assms(1) have "m key = D key \<or>
      (\<exists>k vals'. D k = Some vals' \<and> vals' \<noteq> [] \<and> CanonicalMIMEHeaderKey k = key \<and>
                 m key = Some [last vals'])"
      by (simp add: derived_def)
    with True d show False by auto
  qed
  with True assms(3) show ?thesis
    by (auto simp: set_last_skip covered_def)
next
  case False
  then obtain vals where v: "m key = Some vals" "vals \<noteq> []" by auto
  from derived_read [OF assms(1,2) v] obtain k0 vals0 where
    k0: "D k0 = Some vals0" "vals0 \<noteq> []" "last vals0 = last vals"
       "CanonicalMIMEHeaderKey k0 = CanonicalMIMEHeaderKey key"
    by blast
  show ?thesis
    unfolding covered_def
  proof (intro ballI allI impI)
    fix k vals'
    assume a: "k \<in> insert key V" "D k = Some vals'" "vals' \<noteq> []"
    show "set_last m key m (CanonicalMIMEHeaderKey k) = Some [last vals']"
    proof (cases "CanonicalMIMEHeaderKey k = CanonicalMIMEHeaderKey key")
      case True
      have "k \<in> dom D" "k0 \<in> dom D"
        using a(2) k0(1) by auto
      moreover have "CanonicalMIMEHeaderKey k = CanonicalMIMEHeaderKey k0"
        using True k0(4) by simp
      ultimately have "k = k0"
        using assms(2) by (auto dest: inj_onD)
      with k0 a(2) have "last vals' = last vals" by simp
      with v True show ?thesis by (simp add: set_last_at)
    next
      case False
      then have "k \<noteq> key" by auto
      with a assms(3) have "m (CanonicalMIMEHeaderKey k) = Some [last vals']"
        by (auto simp: covered_def)
      with False show ?thesis by (simp add: set_last_other)
    qed
  qed
qed

lemma fold_self_invariants:
  assumes "inj_on CanonicalMIMEHeaderKey (dom D)" "derived D m" "covered D V m"
  shows "derived D (fold (\<lambda>key m. set_last m key m) keys m) \<and>
         covered D (V \<union> set keys) (fold (\<lambda>key m. set_last m key m) keys m)"
  using assms(2,3)
proof (induction keys arbitrary: m V)
  case Nil
  then show ?case by simp
next
  case (Cons key keys)
  have "derived D (set_last m key m)"
    using Cons.prems(1) assms(1) by (rule derived_step)
  moreover have "covered D (insert key V) (set_last m key m)"
    using Cons.prems(1) assms(1) Cons.prems(2) by (rule covered_step)
  ultimately show ?case
    using Cons.IH [of "set_last m key m" "insert key V"] by simp
qed

lemma fold_self_settled:
  assumes "inj_on CanonicalMIMEHeaderKey (dom D)" "dom D \<subseteq> set keys"
  shows "settled (fold (\<lambda>key m. set_last m key m) keys D) (fold (\<lambda>key m. set_last m key m) keys D)"
proof -
  let ?M = "fold (\<lambda>key m. set_last m key m) keys D"
  have "covered D {} D" by (simp add: covered_def)
  with fold_self_invariants [OF assms(1) derived_refl, of "{}" keys]
  have d: "derived D ?M" and c: "covered D (set keys) ?M" by simp_all
  show ?thesis
    unfolding settled_def
  proof (intro allI impI)
    fix k vals
    assume v: "?M k = Some vals" "vals \<noteq> []"
    from derived_read [OF d assms(1) v] obtain k0 vals0 where
      k0: "D k0 = Some vals0" "vals0 \<noteq> []" "last vals0 = last vals"
        "CanonicalMIMEHeaderKey k0 = CanonicalMIMEHeaderKey k"
      by blast
    then have "k0 \<in> set keys" using assms(2) by auto
    with c k0 show "?M (CanonicalMIMEHeaderKey k) = Some [last vals]"
      by (auto simp: covered_def)
  qed
qed

subsection \<open>mergeHeaders, and mergeHeaders again\<close>

lemma hdr_get_hdr_new: "a < length (header_objs h) \<Longrightarrow> hdr_get (snd (hdr_new h)) a = hdr_get h a"
  by (simp add: hdr_new_def hdr_get_def nth_append)

lemma mergeHeaders_settles:
  assumes d: "\<And>a. dflt = Some a \<Longrightarrow> a < length (header_objs h)"
    and u: "usr = Some u" "u < length (header_objs h)" "dom (hdr_get h u) \<subseteq> set keys"
      "inj_on CanonicalMIMEHeaderKey (dom (hdr_get h u))"
    and m: "mergeHeaders keys dflt usr h = (r, h1)"
  shows "\<exists>a. r = Some a \<and> settled (hdr_get h1 u) (hdr_get h1 a)"
proof (cases dflt)
  case None
  let ?d = "length (header_objs h)"
  let ?h0 = "snd (hdr_new h)"
  have l: "?d < length (header_objs ?h0)" by (simp add: hdr_new_def)
  have ne: "?d \<noteq> u" using u(2) by simp
  have U: "hdr_get ?h0 u = hdr_get h u" using u(2) by (rule hdr_get_hdr_new)
  from m None u(1) have r: "r = Some ?d" and h1: "h1 = mergeHeaders_loop ?d u keys ?h0"
    by (simp_all add: mergeHeaders_def hdr_new_def)
  have "h1 = hdr_put ?h0 ?d (fold (set_last (hdr_get h u)) keys (hdr_get ?h0 ?d))"
    unfolding h1 using mergeHeaders_loop_apart [OF ne l] by (simp add: U)
  then have "hdr_get h1 ?d = fold (set_last (hdr_get h u)) keys (hdr_get ?h0 ?d)"
    and "hdr_get h1 u = hdr_get h u"
    using l ne U by (simp_all add: hdr_get_put_same hdr_get_put_other)
  then have "settled (hdr_get h1 u) (hdr_get h1 ?d)"
    using fold_set_last_settled [OF u(4,3)] by simp
  with r show ?thesis by simp
next
  case (Some a)
  then have l: "a < length (header_objs h)" by (rule d)
  from m Some u(1) have r: "r = Some a" and h1: "h1 = mergeHeaders_loop a u keys h"
    by (simp_all add: mergeHeaders_def)
  show ?thesis
  proof (cases "a = u")
    case True
    have "h1 = hdr_put h u (fold (\<lambda>key m. set_last m key m) keys (hdr_get h u))"
      unfolding h1 True using u(2) by (rule mergeHeaders_loop_same)
    then have "hdr_get h1 u = fold (\<lambda>key m. set_last m key m) keys (hdr_get h u)"
      using u(2) by (simp add: hdr_get_put_same)
    then have "settled (hdr_get h1 u) (hdr_get h1 u)"
      using fold_self_settled [OF u(4,3)] by simp
    with r True show ?thesis by simp
  next
    case False
    have "h1 = hdr_put h a (fold (set_last (hdr_get h u)) keys (hdr_get h a))"
      unfolding h1 using False l by (rule mergeHeaders_loop_apart)
    then have "hdr_get h1 a = fold (set_last (hdr_get h u)) keys (hdr_get h a)"
      and "hdr_get h1 u = hdr_get h u"
      using l False by (simp_all add: hdr_get_put_same hdr_get_put_other)
    then have "settled (hdr_get h1 u) (hdr_get h1 a)"
      using fold_set_last_settled [OF u(4,3)] by simp
    with r show ?thesis by simp
  qed
qed

lemma mergeHeaders_again:
  assumes "\<And>u. usr = Some u \<Longrightarrow> settled (hdr_get h u) (hdr_get h a)"
  shows "mergeHeaders keys (Some a) usr h = (Some a, h)"
  using assms by (cases usr) (simp_all add: mergeHeaders_def mergeHeaders_loop_settled)

lemma mergeHeaders_None: "mergeHeaders keys dflt None h = (r, h1) \<Longrightarrow> \<exists>a. r = Some a"
  by (auto simp: mergeHeaders_def split: prod.splits option.splits)

lemma mergeHeaders_loop_params: "params_objs (mergeHeaders_loop d u keys h) = params_objs h"
proof (induction keys arbitrary: h)
  case Nil
  then show ?case by simp
next
  case (Cons key keys)
  show ?case
    by (simp only: mergeHeaders_loop_step Cons.IH params_objs_hdr_put)
qed

lemma mergeHeaders_params: "mergeHeaders keys dflt usr h = (r, h1) \<Longrightarrow> params_objs h1 = params_objs h"
  by (auto simp: mergeHeaders_def hdr_new_def mergeHeaders_loop_params split: option.splits)

subsection \<open>mergeParams, and mergeParams again\<close>

lemma prm_get_put_same: "a < length (params_objs h) \<Longrightarrow> prm_get (prm_put h a m) a = m"
  by (simp add: prm_get_def prm_put_def)

lemma prm_get_put_other: "a \<noteq> b \<Longrightarrow> prm_get (prm_put h a m) b = prm_get h b"
  by (simp add: prm_get_def prm_put_def)

lemma prm_put_put: "prm_put (prm_put h a m) a m' = prm_put h a m'"
  by (simp add: prm_put_def)

lemma prm_put_get: "prm_put h a (prm_get h a) = h"
  by (simp add: prm_put_def prm_get_def)

lemma params_objs_prm_put_length: "length (params_objs (prm_put h a m)) = length (params_objs h)"
  by (simp add: prm_put_def)

lemma header_objs_prm_put: "header_objs (prm_put h a m) = header_objs h"
  by (simp add: prm_put_def)

lemma mergeParams_loop_step:
  "mergeParams_loop d u (key # keys) h =
     mergeParams_loop d u keys (prm_put h d (set_param (prm_get h u) key (prm_get h d)))"
  by (simp add: set_param_def prm_put_get split: option.splits)

lemma set_param_le: "U \<subseteq>\<^sub>m m \<Longrightarrow> set_param U key m = m"
proof (cases "U key")
  case None
  then show ?thesis by (simp add: set_param_def)
next
  case (Some v)
  assume "U \<subseteq>\<^sub>m m"
  with Some have "m key = Some v"
    by (auto simp: map_le_def dom_def)
  with Some show ?thesis
    by (simp add: set_param_def map_upd_triv)
qed

lemma mergeParams_loop_settled:
  "prm_get h u \<subseteq>\<^sub>m prm_get h d \<Longrightarrow> mergeParams_loop d u keys h = h"
proof (induction keys)
  case Nil
  then show ?case by simp
next
  case (Cons key keys)
  then show ?case
    by (simp only: mergeParams_loop_step set_param_le prm_put_get)
qed

lemma mergeParams_loop_apart:
  assumes "d \<noteq> u" "d < length (params_objs h)"
  shows "mergeParams_loop d u keys h =
           prm_put h d (fold (set_param (prm_get h u)) keys (prm_get h d))"
  using assms(2)
proof (induction keys arbitrary: h)
  case Nil
  then show ?case by (simp add: prm_put_get)
next
  case (Cons key keys)
  let ?h = "prm_put h d (set_param (prm_get h u) key (prm_get h d))"
  have "d < length (params_objs ?h)"
    using Cons.prems by (simp add: params_objs_prm_put_length)
  from Cons.IH [OF this] show ?case
    using assms(1) Cons.prems
    by (simp only: mergeParams_loop_step)
       (simp add: prm_get_put_other prm_get_put_same prm_put_put)
qed

lemma fold_set_param_at:
  "U k = Some v \<Longrightarrow> k \<in> set keys \<Longrightarrow> fold (set_param U) keys m k = Some v"
proof (induction keys rule: rev_induct)
  case Nil
  then show ?case by simp
next
  case (snoc key keys)
  then show ?case
    by (cases "key = k") (auto simp: set_param_def split: option.splits)
qed

lemma fold_set_param_le: "dom U \<subseteq> set keys \<Longrightarrow> U \<subseteq>\<^sub>m fold (set_param U) keys m"
  by (auto simp: map_le_def fold_set_param_at)

lemma prm_get_prm_new: "a < length (params_objs h) \<Longrightarrow> prm_get (snd (prm_new h)) a = prm_get h a"
  by (simp add: prm_new_def prm_get_def nth_append)

lemma mergeParams_settles:
  assumes d: "\<And>a. dflt = Some a \<Longrightarrow> a < length (params_objs h)"
    and u: "usr = Some u" "u < length (params_objs h)" "dom (prm_get h u) \<subseteq> set keys"
    and m: "mergeParams keys dflt usr h = (r, h1)"
  shows "\<exists>a. r = Some a \<and> prm_get h1 u \<subseteq>\<^sub>m prm_get h1 a"
proof (cases dflt)
  case None
  let ?d = "length (params_objs h)"
  let ?h0 = "snd (prm_new h)"
  have l: "?d < length (params_objs ?h0)" by (simp add: prm_new_def)
  have ne: "?d \<noteq> u" using u(2) by simp
  have U: "prm_get ?h0 u = prm_get h u" using u(2) by (rule prm_get_prm_new)
  from m None u(1) have r: "r = Some ?d" and h1: "h1 = mergeParams_loop ?d u keys ?h0"
    by (simp_all add: mergeParams_def prm_new_def)
  have "h1 = prm_put ?h0 ?d (fold (set_param (prm_get h u)) keys (prm_get ?h0 ?d))"
    unfolding h1 using mergeParams_loop_apart [OF ne l] by (simp add: U)
  then have "prm_get h1 ?d = fold (set_param (prm_get h u)) keys (prm_get ?h0 ?d)"
    and "prm_get h1 u = prm_get h u"
    using l ne U by (simp_all add: prm_get_put_same prm_get_put_other)
  then have "prm_get h1 u \<subseteq>\<^sub>m prm_get h1 ?d"
    using fold_set_param_le [OF u(3)] by simp
  with r show ?thesis by simp
next
  case (Some a)
  then have l: "a < length (params_objs h)" by (rule d)
  from m Some u(1) have r: "r = Some a" and h1: "h1 = mergeParams_loop a u keys h"
    by (simp_all add: mergeParams_def)
  show ?thesis
  proof (cases "a = u")
    case True
    with r show ?thesis by simp
  next
    case False
    have "h1 = prm_put h a (fold (set_param (prm_get h u)) keys (prm_get h a))"
      unfolding h1 using False l by (rule mergeParams_loop_apart)
    then have "prm_get h1 a = fold (set_param (prm_get h u)) keys (prm_get h a)"
      and "prm_get h1 u = prm_get h u"
      using l False by (simp_all add: prm_get_put_same prm_get_put_other)
    then have "prm_get h1 u \<subseteq>\<^sub>m prm_get h1 a"
      using fold_set_param_le [OF u(3)] by simp
    with r show ?thesis by simp
  qed
qed

lemma mergeParams_again:
  assumes "\<And>u. usr = Some u \<Longrightarrow> prm_get h u \<subseteq>\<^sub>m prm_get h a"
  shows "mergeParams keys (Some a) usr h = (Some a, h)"
  using assms by (cases usr) (simp_all add: mergeParams_def mergeParams_loop_settled)

lemma mergeParams_None: "mergeParams keys dflt None h = (r, h1) \<Longrightarrow> \<exists>a. r = Some a"
  by (auto simp: mergeParams_def split: prod.splits option.splits)

lemma mergeParams_loop_headers: "header_objs (mergeParams_loop d u keys h) = header_objs h"
proof (induction keys arbitrary: h)
  case Nil
  then show ?case by simp
next
  case (Cons key keys)
  show ?case
    by (simp only: mergeParams_loop_step Cons.IH header_objs_prm_put)
qed

lemma mergeParams_headers: "mergeParams keys dflt usr h = (r, h1) \<Longrightarrow> header_objs h1 = header_objs h"
  by (auto simp: mergeParams_def prm_new_def mergeParams_loop_headers split: option.splits)

subsection \<open>mergeConfig, and mergeConfig again\<close>

lemma mergeConfig_again:
  assumes A: "allocated h A" and B: "allocated h B"
    and v: "visits_all_keys h B hkeys pkeys" and c: "distinct_canonical_keys h B"
    and m: "mergeConfig hkeys pkeys A B h = (M, h2)"
  shows "mergeConfig hkeys' pkeys' M B h2 = (M, h2)"
proof -
  obtain hs h1 where mh: "mergeHeaders hkeys (Headers A) (Headers B) h = (hs, h1)"
    by (cases "mergeHeaders hkeys (Headers A) (Headers B) h")
  obtain ps h2' where mp: "mergeParams pkeys (Params A) (Params B) h1 = (ps, h2')"
    by (cases "mergeParams pkeys (Params A) (Params B) h1")
  from m mh mp have h2: "h2' = h2"
    and M: "M = (let fc = A;
                     fc = (if Method B \<noteq> [] then fc\<lparr>Method := Method B\<rparr> else fc);
                     fc = (if URL B \<noteq> [] then fc\<lparr>URL := URL B\<rparr> else fc);
                     fc = fc\<lparr>Headers := hs\<rparr>;
                     fc = fc\<lparr>Params := ps\<rparr>;
                     fc = (if Body B \<noteq> None then fc\<lparr>Body := Body B\<rparr> else fc);
                     fc = (if Timeout B \<noteq> 0 then fc\<lparr>Timeout := Timeout B\<rparr> else fc)
                 in fc)"
    by (simp_all add: mergeConfig_def Let_def)
  have po: "params_objs h1 = params_objs h"
    using mh by (rule mergeHeaders_params)
  have ho: "header_objs h2 = header_objs h1"
    using mp unfolding h2 by (rule mergeParams_headers)
  have hg: "hdr_get h2 = hdr_get h1"
    using ho by (simp add: hdr_get_def fun_eq_iff)
  have pg: "prm_get h1 = prm_get h"
    using po by (simp add: prm_get_def fun_eq_iff)

  have "\<exists>a. hs = Some a \<and> (\<forall>u. Headers B = Some u \<longrightarrow> settled (hdr_get h2 u) (hdr_get h2 a))"
  proof (cases "Headers B")
    case None
    with mh show ?thesis by (auto dest: mergeHeaders_None)
  next
    case (Some u)
    have "\<exists>a. hs = Some a \<and> settled (hdr_get h1 u) (hdr_get h1 a)"
    proof (rule mergeHeaders_settles [OF _ Some _ _ _ mh])
      show "a < length (header_objs h)" if "Headers A = Some a" for a
        using A that by (simp add: allocated_def)
      show "u < length (header_objs h)"
        using B Some by (simp add: allocated_def)
      show "dom (hdr_get h u) \<subseteq> set hkeys"
        using v Some by (simp add: visits_all_keys_def)
      show "inj_on CanonicalMIMEHeaderKey (dom (hdr_get h u))"
        using c Some by (simp add: distinct_canonical_keys_def)
    qed
    with Some show ?thesis by (simp add: hg)
  qed
  then obtain a where a: "hs = Some a"
    "\<And>u. Headers B = Some u \<Longrightarrow> settled (hdr_get h2 u) (hdr_get h2 a)"
    by blast
  have "\<exists>p. ps = Some p \<and> (\<forall>u. Params B = Some u \<longrightarrow> prm_get h2 u \<subseteq>\<^sub>m prm_get h2 p)"
  proof (cases "Params B")
    case None
    with mp show ?thesis by (auto dest: mergeParams_None)
  next
    case (Some u)
    have "\<exists>p. ps = Some p \<and> prm_get h2' u \<subseteq>\<^sub>m prm_get h2' p"
    proof (rule mergeParams_settles [OF _ Some _ _ mp])
      show "a < length (params_objs h1)" if "Params A = Some a" for a
        using A that by (simp add: allocated_def po)
      show "u < length (params_objs h1)"
        using B Some by (simp add: allocated_def po)
      show "dom (prm_get h1 u) \<subseteq> set pkeys"
        using v Some by (simp add: visits_all_keys_def pg)
    qed
    with Some show ?thesis by (simp add: h2)
  qed
  then obtain p where p: "ps = Some p"
    "\<And>u. Params B = Some u \<Longrightarrow> prm_get h2 u \<subseteq>\<^sub>m prm_get h2 p"
    by blast
  have 1: "mergeHeaders hkeys' (Headers M) (Headers B) h2 = (Some a, h2)"
    using a(2) by (simp add: M Let_def a(1) mergeHeaders_again)
  have 2: "mergeParams pkeys' (Params M) (Params B) h2 = (Some p, h2)"
    using p(2) by (simp add: M Let_def p(1) mergeParams_again)
  show ?thesis
    by (simp add: mergeConfig_def [of hkeys' pkeys' M B h2] 1 2 Let_def)
       (simp add: M Let_def a(1) p(1))
qed

lemma ex_merge:
  "mergeConfig [''A''] [''p'', ''q''] exBase exOverride exMergeHeap =
     (\<lparr>Method = ''POST'', URL = ''http://a'', Headers = Some 0, Params = Some 0, Body = Some ''x'',
        Timeout = 10\<rparr>,
      \<lparr>header_objs = [[''A'' \<mapsto> [''3'']], [''A'' \<mapsto> [''2'', ''3'']]],
        params_objs = [[''p'' \<mapsto> ''2'', ''q'' \<mapsto> ''3''], [''p'' \<mapsto> ''2'', ''q'' \<mapsto> ''3'']]\<rparr>)"
  by (simp add: mergeConfig_def mergeHeaders_def mergeParams_def exBase_def exOverride_def
        exMergeHeap_def hdr_get_def hdr_put_def prm_get_def prm_put_def Header_Set_def canon_A)

text \<open>
  C7, amended. For all configurations A and B whose maps are objects of the store, where no
  two header keys of B have the same canonical form and the iterations of the first merge visit
  all keys of B's maps: merging B into the result of merging B into A gives a configuration
  with the same value (same method, url, body, timeout, headers and params) as the result
  of the first merge, whatever the orders of the iterations of the second merge.
\<close>

theorem mergeConfig_idempotent_distinct_keys:
  assumes "allocated h A" and "allocated h B"
    and "visits_all_keys h B hkeys pkeys" and "distinct_canonical_keys h B"
  shows "config_value (mergeConfig hkeys' pkeys' (fst (mergeConfig hkeys pkeys A B h)) B
                         (snd (mergeConfig hkeys pkeys A B h))) =
         config_value (mergeConfig hkeys pkeys A B h)"
proof -
  obtain M h2 where m: "mergeConfig hkeys pkeys A B h = (M, h2)"
    by (cases "mergeConfig hkeys pkeys A B h")
  from mergeConfig_again [OF assms m] show ?thesis
    by (simp add: m)
qed

text \<open>
  The example base and override: the second merge, with the params visited in the other
  order, gives the value of the first.
\<close>

theorem mergeConfig_idempotent_distinct_keys_witness:
  "allocated exMergeHeap exBase \<and> allocated exMergeHeap exOverride \<and>
   visits_all_keys exMergeHeap exOverride [''A''] [''p'', ''q''] \<and>
   distinct_canonical_keys exMergeHeap exOverride \<and>
   config_value (mergeConfig [''A''] [''q'', ''p'']
       (fst (mergeConfig [''A''] [''p'', ''q''] exBase exOverride exMergeHeap)) exOverride
       (snd (mergeConfig [''A''] [''p'', ''q''] exBase exOverride exMergeHeap))) =
     config_value (mergeConfig [''A''] [''p'', ''q''] exBase exOverride exMergeHeap) \<and>
   config_value (mergeConfig [''A''] [''p'', ''q''] exBase exOverride exMergeHeap) =
     (''POST'', ''http://a'', Some [''A'' \<mapsto> [''3'']], Some [''p'' \<mapsto> ''2'', ''q'' \<mapsto> ''3''],
      Some ''x'', 10)"
proof -
  have a: "allocated exMergeHeap exBase"
    by (simp add: allocated_def exMergeHeap_def exBase_def)
  have b: "allocated exMergeHeap exOverride"
    by (simp add: allocated_def exMergeHeap_def exOverride_def)
  have v: "visits_all_keys exMergeHeap exOverride [''A''] [''p'', ''q'']"
    by (auto simp add: visits_all_keys_def exMergeHeap_def exOverride_def hdr_get_def prm_get_def)
  have c: "distinct_canonical_keys exMergeHeap exOverride"
    by (simp add: distinct_canonical_keys_def exMergeHeap_def exOverride_def hdr_get_def)
  have e: "config_value (mergeConfig [''A''] [''p'', ''q''] exBase exOverride exMergeHeap) =
     (''POST'', ''http://a'', Some [''A'' \<mapsto> [''3'']], Some [''p'' \<mapsto> ''2'', ''q'' \<mapsto> ''3''],
      Some ''x'', 10)"
    by (simp add: ex_merge config_value_def hdr_get_def prm_get_def)
  from a b v c e mergeConfig_idempotent_distinct_keys [OF a b v c, of "[''A'']" "[''q'', ''p'']"]
  show ?thesis by blast
qed

lemma exCasesFirst_eq:
  "exCasesFirst =
     (\<lparr>Method = ''GET'', URL = ''http://a'', Headers = Some 1, Params = Some 0, Body = None,
        Timeout = 10\<rparr>,
      \<lparr>header_objs = [[''a'' \<mapsto> [''1''], ''A'' \<mapsto> [''2'']], [''A'' \<mapsto> [''2'']]],
        params_objs = [Map.empty]\<rparr>)"
  by (simp add: exCasesFirst_def mergeConfig_def mergeHeaders_def mergeParams_def exNoMaps_def
        exTwoCases_def exCaseHeap_def hdr_new_def prm_new_def hdr_get_def hdr_put_def Header_Set_def
        canon_A canon_a)

lemma exCasesSecond_eq:
  "exCasesSecond =
     (\<lparr>Method = ''GET'', URL = ''http://a'', Headers = Some 1, Params = Some 0, Body = None,
        Timeout = 10\<rparr>,
      \<lparr>header_objs = [[''a'' \<mapsto> [''1''], ''A'' \<mapsto> [''2'']], [''A'' \<mapsto> [''1'']]],
        params_objs = [Map.empty]\<rparr>)"
  by (simp add: exCasesSecond_def exCasesFirst_eq)
     (simp add: mergeConfig_def mergeHeaders_def mergeParams_def exTwoCases_def
        hdr_get_def hdr_put_def Header_Set_def canon_A canon_a)

text \<open>
  C7 as it is stated, for all configurations, fails: the override has the header keys a and
  A, which Set stores under the same key A. The first merge visits a, then A, and leaves
  the values of A; the second visits A, then a, and leaves the values of a.
\<close>

theorem mergeConfig_idempotence_counterexample:
  "allocated exCaseHeap exNoMaps \<and> allocated exCaseHeap exTwoCases \<and>
   visits_all_keys exCaseHeap exTwoCases [''a'', ''A''] [] \<and>
   visits_all_keys (snd exCasesFirst) exTwoCases [''A'', ''a''] [] \<and>
   config_value exCasesFirst =
     (''GET'', ''http://a'', Some [''A'' \<mapsto> [''2'']], Some Map.empty, None, 10) \<and>
   config_value exCasesSecond =
     (''GET'', ''http://a'', Some [''A'' \<mapsto> [''1'']], Some Map.empty, None, 10) \<and>
   config_value exCasesSecond \<noteq> config_value exCasesFirst"
proof -
  have a: "allocated exCaseHeap exNoMaps"
    by (simp add: allocated_def exNoMaps_def)
  have b: "allocated exCaseHeap exTwoCases"
    by (simp add: allocated_def exCaseHeap_def exTwoCases_def)
  have v: "visits_all_keys exCaseHeap exTwoCases [''a'', ''A''] []"
    by (auto simp add: visits_all_keys_def exCaseHeap_def exTwoCases_def hdr_get_def)
  have v': "visits_all_keys (snd exCasesFirst) exTwoCases [''A'', ''a''] []"
    by (auto simp add: exCasesFirst_eq visits_all_keys_def exTwoCases_def hdr_get_def)
  have f: "config_value exCasesFirst =
     (''GET'', ''http://a'', Some [''A'' \<mapsto> [''2'']], Some Map.empty, None, 10)"
    by (simp add: exCasesFirst_eq config_value_def hdr_get_def prm_get_def)
  have s: "config_value exCasesSecond =
     (''GET'', ''http://a'', Some [''A'' \<mapsto> [''1'']], Some Map.empty, None, 10)"
    by (simp add: exCasesSecond_eq config_value_def hdr_get_def prm_get_def)
  have "[''A'' \<mapsto> [''1'']] ''A'' \<noteq> [''A'' \<mapsto> [''2'']] ''A''"
    by simp
  then have "[''A'' \<mapsto> [''1'']] \<noteq> [''A'' \<mapsto> [''2'']]"
    by metis
  then have n: "config_value exCasesSecond \<noteq> config_value exCasesFirst"
    by (simp add: f s)
  from a b v v' f s n show ?thesis by blast
qed

text \<open>
  C2 says that mergeConfig leaves the header map and the params map of the base unchanged
  and that the result does not share them. In the code the result has the references of
  the base whenever the base has maps, and both iterations write into these maps: with the
  example base and override, the base's headers change from A: 1 to A: 3 and its params
  from p: 1 to p: 2, q: 3.
\<close>

theorem mergeConfig_writes_into_base:
  "Headers exBase = Some 0 \<and> hdr_get exMergeHeap 0 = [''A'' \<mapsto> [''1'']] \<and>
   Headers (fst (mergeConfig [''A''] [''p'', ''q''] exBase exOverride exMergeHeap)) = Some 0 \<and>
   hdr_get (snd (mergeConfig [''A''] [''p'', ''q''] exBase exOverride exMergeHeap)) 0 = [''A'' \<mapsto> [''3'']] \<and>
   Params exBase = Some 0 \<and> prm_get exMergeHeap 0 = [''p'' \<mapsto> ''1''] \<and>
   Params (fst (mergeConfig [''A''] [''p'', ''q''] exBase exOverride exMergeHeap)) = Some 0 \<and>
   prm_get (snd (mergeConfig [''A''] [''p'', ''q''] exBase exOverride exMergeHeap)) 0 =
     [''p'' \<mapsto> ''2'', ''q'' \<mapsto> ''3'']"
  by (simp add: ex_merge) (simp add: exBase_def exMergeHeap_def hdr_get_def prm_get_def)

text \<open>
  C3 says that the merged configuration has, for every header key of the override, the
  whole value list of the override. The loop calls Set once for every value, and Set
  replaces the list by the one value: the override's list 2, 3 for the key A becomes 3.
\<close>

theorem mergeConfig_keeps_last_value_only:
  "Headers exOverride = Some 1 \<and> hdr_get exMergeHeap 1 ''A'' = Some [''2'', ''3''] \<and>
   Headers (fst (mergeConfig [''A''] [''p'', ''q''] exBase exOverride exMergeHeap)) = Some 0 \<and>
   hdr_get (snd (mergeConfig [''A''] [''p'', ''q''] exBase exOverride exMergeHeap)) 0 ''A'' = Some [''3'']"
  by (simp add: ex_merge) (simp add: exOverride_def exMergeHeap_def hdr_get_def)

section \<open>Properties of the interceptor pipeline\<close>

text \<open>
  C1 says that an interceptor without a request transform is passed over by
  ApplyRequestInterceptors, and one without a response transform by
  ApplyResponseInterceptors. Each loop calls the field without testing it: with a single
  registered interceptor whose field is \<^verbatim>\<open>nil\<close>, the call panics.
\<close>

theorem nil_transform_panics:
  "ApplyRequestInterceptors \<lparr>interceptors = [\<lparr>Request = None, Response = r\<rparr>]\<rparr> req u = (Panic, u) \<and>
   ApplyResponseInterceptors \<lparr>interceptors = [\<lparr>Request = q, Response = None\<rparr>]\<rparr> resp u = (Panic, u)"
  by (simp add: ApplyRequestInterceptors_def ApplyResponseInterceptors_def)

lemma ApplyRequestInterceptors_from_append:
  "ApplyRequestInterceptors_from idx (xs @ ys) req u =
     (case ApplyRequestInterceptors_from idx xs req u of
        (Done (Inr req'), u') \<Rightarrow> ApplyRequestInterceptors_from (idx + length xs) ys req' u'
      | other \<Rightarrow> other)"
  by (induction xs arbitrary: idx req u) (auto split: option.splits prod.splits sum.splits go.splits)

lemma ApplyResponseInterceptors_from_append:
  "ApplyResponseInterceptors_from idx (xs @ ys) resp u =
     (case ApplyResponseInterceptors_from idx xs resp u of
        (Done (Inr resp'), u') \<Rightarrow> ApplyResponseInterceptors_from (idx + length xs) ys resp' u'
      | other \<Rightarrow> other)"
  by (induction xs arbitrary: idx resp u) (auto split: option.splits prod.splits sum.splits go.splits)

subsection \<open>The decimal text of an index determines the index\<close>

lemma itoa_small: "n < 10 \<Longrightarrow> itoa n = [''0123456789'' ! n]"
  by (subst itoa.simps) (simp only: if_True)

lemma itoa_large: "\<not> n < 10 \<Longrightarrow> itoa n = itoa (n div 10) @ [''0123456789'' ! (n mod 10)]"
  by (subst itoa.simps) (simp only: if_False)

lemma itoa_length: "length (itoa n) = (if n < 10 then 1 else Suc (length (itoa (n div 10))))"
  by (cases "n < 10") (simp_all add: itoa_small itoa_large)

lemma itoa_nonempty: "itoa n \<noteq> []"
proof (cases "n < 10")
  case True
  then show ?thesis by (simp add: itoa_small)
next
  case False
  then show ?thesis by (simp add: itoa_large)
qed

lemma digit_inj:
  assumes "a < 10" "b < 10" "''0123456789'' ! a = ''0123456789'' ! b"
  shows "a = b"
proof -
  have "distinct ''0123456789''" by simp
  moreover have "a < length ''0123456789''" "b < length ''0123456789''"
    using assms(1,2) by simp_all
  ultimately show ?thesis
    using assms(3) by (simp only: nth_eq_iff_index_eq)
qed

lemma itoa_eq: "itoa m = itoa n \<Longrightarrow> m = n"
proof (induction m arbitrary: n rule: itoa.induct)
  case (1 m)
  show ?case
  proof (cases "m < 10")
    case True
    note m = this
    show ?thesis
    proof (cases "n < 10")
      case True
      with m "1.prems" have "''0123456789'' ! m = ''0123456789'' ! n"
        by (simp add: itoa_small)
      with m True show ?thesis by (rule digit_inj)
    next
      case False
      then have "length (itoa n) \<noteq> 1"
        using itoa_nonempty [of "n div 10"] by (simp add: itoa_large)
      moreover have "length (itoa m) = 1"
        using m by (simp add: itoa_small)
      ultimately show ?thesis using "1.prems" by simp
    qed
  next
    case False
    note m = this
    show ?thesis
    proof (cases "n < 10")
      case True
      from m have "length (itoa m) \<noteq> 1"
        using itoa_nonempty [of "m div 10"] by (simp add: itoa_large)
      moreover have "length (itoa n) = 1"
        using True by (simp add: itoa_small)
      ultimately show ?thesis using "1.prems" by simp
    next
      case False
      from "1.prems" have "itoa (m div 10) @ [''0123456789'' ! (m mod 10)] =
          itoa (n div 10) @ [''0123456789'' ! (n mod 10)]"
        by (simp only: itoa_large [OF m] itoa_large [OF False])
      then have e: "itoa (m div 10) = itoa (n div 10)"
        and d: "''0123456789'' ! (m mod 10) = ''0123456789'' ! (n mod 10)"
        by simp_all
      from "1.IH" [OF m e] have q: "m div 10 = n div 10" .
      have "m mod 10 < 10" "n mod 10 < 10" by simp_all
      then have r: "m mod 10 = n mod 10"
        using d by (rule digit_inj)
      have "m = 10 * (m div 10) + m mod 10" by simp
      also have "\<dots> = 10 * (n div 10) + n mod 10" by (simp only: q r)
      also have "\<dots> = n" by simp
      finally show ?thesis .
    qed
  qed
qed

lemma inj_itoa: "inj itoa"
  by (rule injI) (rule itoa_eq)

text \<open>
  C5. For every registry and request, ApplyRequestInterceptors applies the request transforms
  from left to right in the order of registration. With no interceptor the request is
  returned as it is. When the transforms of \<open>xs\<close> succeed and that of the next interceptor
  succeeds on their result, the registry \<open>xs\<close> followed by that interceptor returns what
  this transform returned, in the state it left, and the interceptors after it run on that
  request and state. The interceptors \<open>xs\<close> run first, and those after them run on the
  result, only if all of \<open>xs\<close> succeeded. When the transforms of \<open>xs\<close> succeed and that of
  the next interceptor fails, the result is an error that wraps the cause and names the
  index of that interceptor, counted from zero, and the state is the one the failing
  transform left: no later interceptor has been called. The same holds for
  ApplyResponseInterceptors. Different indices have different texts.
\<close>

theorem interceptor_fold_order_short_circuit:
  "ApplyRequestInterceptors \<lparr>interceptors = []\<rparr> req u = (Done (Inr req), u) \<and>
   (ApplyRequestInterceptors \<lparr>interceptors = xs\<rparr> req u = (Done (Inr req1), u1) \<and>
    Request i = Some f \<and> f req1 u1 = (Inr req2, u2) \<longrightarrow>
      ApplyRequestInterceptors \<lparr>interceptors = xs @ [i]\<rparr> req u = (Done (Inr req2), u2) \<and>
      ApplyRequestInterceptors \<lparr>interceptors = xs @ i # ys\<rparr> req u =
        ApplyRequestInterceptors_from (Suc (length xs)) ys req2 u2) \<and>
   ApplyRequestInterceptors \<lparr>interceptors = xs @ ys\<rparr> req u =
     (case ApplyRequestInterceptors \<lparr>interceptors = xs\<rparr> req u of
        (Done (Inr req'), u') \<Rightarrow> ApplyRequestInterceptors_from (length xs) ys req' u'
      | other \<Rightarrow> other) \<and>
   (ApplyRequestInterceptors \<lparr>interceptors = xs\<rparr> req u = (Done (Inr req1), u1) \<and>
    Request i = Some f \<and> f req1 u1 = (Inl cause, u2) \<longrightarrow>
      ApplyRequestInterceptors \<lparr>interceptors = xs @ i # ys\<rparr> req u =
        (Done (Inl (Wrapped (''request interceptor '' @ itoa (length xs) @ '' failed'') cause)), u2)) \<and>
   ApplyResponseInterceptors \<lparr>interceptors = []\<rparr> resp u = (Done (Inr resp), u) \<and>
   (ApplyResponseInterceptors \<lparr>interceptors = xs\<rparr> resp u = (Done (Inr resp1), v1) \<and>
    Response i = Some g \<and> g resp1 v1 = (Inr resp2, v2) \<longrightarrow>
      ApplyResponseInterceptors \<lparr>interceptors = xs @ [i]\<rparr> resp u = (Done (Inr resp2), v2) \<and>
      ApplyResponseInterceptors \<lparr>interceptors = xs @ i # ys\<rparr> resp u =
        ApplyResponseInterceptors_from (Suc (length xs)) ys resp2 v2) \<and>
   ApplyResponseInterceptors \<lparr>interceptors = xs @ ys\<rparr> resp u =
     (case ApplyResponseInterceptors \<lparr>interceptors = xs\<rparr> resp u of
        (Done (Inr resp'), u') \<Rightarrow> ApplyResponseInterceptors_from (length xs) ys resp' u'
      | other \<Rightarrow> other) \<and>
   (ApplyResponseInterceptors \<lparr>interceptors = xs\<rparr> resp u = (Done (Inr resp1), v1) \<and>
    Response i = Some g \<and> g resp1 v1 = (Inl cause', v2) \<longrightarrow>
      ApplyResponseInterceptors \<lparr>interceptors = xs @ i # ys\<rparr> resp u =
        (Done (Inl (Wrapped (''response interceptor '' @ itoa (length xs) @ '' failed'') cause')), v2)) \<and>
   inj itoa"
  by (simp add: ApplyRequestInterceptors_def ApplyResponseInterceptors_def
        ApplyRequestInterceptors_from_append ApplyResponseInterceptors_from_append inj_itoa
      split: prod.splits go.splits sum.splits)

text \<open>
  Two marking interceptors in a row: the second runs on the request the first returned, and
  the result carries both marks in the order of registration. Three interceptors, of which
  the second fails: the error names index 1, and the state holds the names of the first two
  only.
\<close>

lemma itoa_1: "itoa (Suc 0) = ''1''"
  by (simp add: itoa.simps)

theorem interceptor_fold_order_short_circuit_witness:
  "ApplyRequestInterceptors \<lparr>interceptors = [exMark ''T0'']\<rparr> exRequest [] =
     (Done (Inr (exRequest\<lparr>header := [''X-Mark'' \<mapsto> [''T0'']]\<rparr>)), [''T0'']) \<and>
   Request (exMark ''T2'') =
     Some (\<lambda>req u. (Inr (req\<lparr>header := Header_Add (header req) ''X-Mark'' ''T2''\<rparr>), u @ [''T2''])) \<and>
   ApplyRequestInterceptors \<lparr>interceptors = [exMark ''T0''] @ [exMark ''T2'']\<rparr> exRequest [] =
     (Done (Inr (exRequest\<lparr>header := [''X-Mark'' \<mapsto> [''T0'', ''T2'']]\<rparr>)), [''T0'', ''T2'']) \<and>
   Request (exFail ''T1'') = Some (\<lambda>req u. (Inl (External ''T1''), u @ [''T1''])) \<and>
   ApplyRequestInterceptors \<lparr>interceptors = [exMark ''T0''] @ exFail ''T1'' # [exMark ''T2'']\<rparr> exRequest [] =
     (Done (Inl (Wrapped ''request interceptor 1 failed'' (External ''T1''))), [''T0'', ''T1'']) \<and>
   ApplyResponseInterceptors \<lparr>interceptors = [exMark ''T0'']\<rparr> exResponse [] =
     (Done (Inr (exResponse\<lparr>Response.Body := ''T0''\<rparr>)), [''T0'']) \<and>
   Response (exMark ''T2'') =
     Some (\<lambda>resp u. (Inr (resp\<lparr>Response.Body := Response.Body resp @ ''T2''\<rparr>), u @ [''T2''])) \<and>
   ApplyResponseInterceptors \<lparr>interceptors = [exMark ''T0''] @ [exMark ''T2'']\<rparr> exResponse [] =
     (Done (Inr (exResponse\<lparr>Response.Body := ''T0T2''\<rparr>)), [''T0'', ''T2'']) \<and>
   Response (exFail ''T1'') = Some (\<lambda>resp u. (Inl (External ''T1''), u @ [''T1''])) \<and>
   ApplyResponseInterceptors \<lparr>interceptors = [exMark ''T0''] @ exFail ''T1'' # [exMark ''T2'']\<rparr> exResponse [] =
     (Done (Inl (Wrapped ''response interceptor 1 failed'' (External ''T1''))), [''T0'', ''T1''])"
proof -
  have a: "ApplyRequestInterceptors \<lparr>interceptors = [exMark ''T0'']\<rparr> exRequest [] =
     (Done (Inr (exRequest\<lparr>header := [''X-Mark'' \<mapsto> [''T0'']]\<rparr>)), [''T0''])"
    by (simp add: ApplyRequestInterceptors_def exMark_def exRequest_def Header_Add_def canon_X_Mark)
  have m: "Request (exMark ''T2'') =
     Some (\<lambda>req u. (Inr (req\<lparr>header := Header_Add (header req) ''X-Mark'' ''T2''\<rparr>), u @ [''T2'']))"
    by (simp add: exMark_def)
  have n: "(\<lambda>req u. (Inr (req\<lparr>header := Header_Add (header req) ''X-Mark'' ''T2''\<rparr>), u @ [''T2'']))
        (exRequest\<lparr>header := [''X-Mark'' \<mapsto> [''T0'']]\<rparr>) [''T0''] =
      (Inr (exRequest\<lparr>header := [''X-Mark'' \<mapsto> [''T0'', ''T2'']]\<rparr>), [''T0'', ''T2''])"
    by (simp add: Header_Add_def canon_X_Mark)
  have b: "Request (exFail ''T1'') = Some (\<lambda>req u. (Inl (External ''T1''), u @ [''T1'']))"
    by (simp add: exFail_def)
  have c: "(\<lambda>req u. (Inl (External ''T1''), u @ [''T1''])) (exRequest\<lparr>header := [''X-Mark'' \<mapsto> [''T0'']]\<rparr>) [''T0''] =
      (Inl (External ''T1''), [''T0'', ''T1''])"
    by simp
  have a': "ApplyResponseInterceptors \<lparr>interceptors = [exMark ''T0'']\<rparr> exResponse [] =
     (Done (Inr (exResponse\<lparr>Response.Body := ''T0''\<rparr>)), [''T0''])"
    by (simp add: ApplyResponseInterceptors_def exMark_def exResponse_def)
  have m': "Response (exMark ''T2'') =
     Some (\<lambda>resp u. (Inr (resp\<lparr>Response.Body := Response.Body resp @ ''T2''\<rparr>), u @ [''T2'']))"
    by (simp add: exMark_def)
  have n': "(\<lambda>resp u. (Inr (resp\<lparr>Response.Body := Response.Body resp @ ''T2''\<rparr>), u @ [''T2'']))
        (exResponse\<lparr>Response.Body := ''T0''\<rparr>) [''T0''] =
      (Inr (exResponse\<lparr>Response.Body := ''T0T2''\<rparr>), [''T0'', ''T2''])"
    by simp
  have b': "Response (exFail ''T1'') = Some (\<lambda>resp u. (Inl (External ''T1''), u @ [''T1'']))"
    by (simp add: exFail_def)
  have c': "(\<lambda>resp u. (Inl (External ''T1''), u @ [''T1''])) (exResponse\<lparr>Response.Body := ''T0''\<rparr>) [''T0''] =
      (Inl (External ''T1''), [''T0'', ''T1''])"
    by simp
  have s: "ApplyRequestInterceptors \<lparr>interceptors = [exMark ''T0''] @ [exMark ''T2'']\<rparr> exRequest [] =
     (Done (Inr (exRequest\<lparr>header := [''X-Mark'' \<mapsto> [''T0'', ''T2'']]\<rparr>)), [''T0'', ''T2''])"
    using interceptor_fold_order_short_circuit
      [THEN conjunct2, THEN conjunct1, rule_format, OF conjI [OF a conjI [OF m n]], THEN conjunct1] .
  have r: "ApplyRequestInterceptors \<lparr>interceptors = [exMark ''T0''] @ exFail ''T1'' # [exMark ''T2'']\<rparr> exRequest [] =
     (Done (Inl (Wrapped ''request interceptor 1 failed'' (External ''T1''))), [''T0'', ''T1''])"
    using interceptor_fold_order_short_circuit
      [THEN conjunct2, THEN conjunct2, THEN conjunct2, THEN conjunct1, rule_format,
        OF conjI [OF a conjI [OF b c]], of "[exMark ''T2'']"]
    by (simp add: itoa_1)
  have s': "ApplyResponseInterceptors \<lparr>interceptors = [exMark ''T0''] @ [exMark ''T2'']\<rparr> exResponse [] =
     (Done (Inr (exResponse\<lparr>Response.Body := ''T0T2''\<rparr>)), [''T0'', ''T2''])"
    using interceptor_fold_order_short_circuit
      [THEN conjunct2, THEN conjunct2, THEN conjunct2, THEN conjunct2, THEN conjunct2, THEN conjunct1,
        rule_format, OF conjI [OF a' conjI [OF m' n']], THEN conjunct1] .
  have r': "ApplyResponseInterceptors \<lparr>interceptors = [exMark ''T0''] @ exFail ''T1'' # [exMark ''T2'']\<rparr> exResponse [] =
     (Done (Inl (Wrapped ''response interceptor 1 failed'' (External ''T1''))), [''T0'', ''T1''])"
    using interceptor_fold_order_short_circuit
      [THEN conjunct2, THEN conjunct2, THEN conjunct2, THEN conjunct2, THEN conjunct2, THEN conjunct2,
        THEN conjunct2, THEN conjunct1, rule_format, OF conjI [OF a' conjI [OF b' c']],
        of "[exMark ''T2'']"]
    by (simp add: itoa_1)
  from a m s b r a' m' s' b' r' show ?thesis by blast
qed

section \<open>Properties of Request\<close>

lemma mergeHeaders_Some: "mergeHeaders ks d u h = (r, h') \<Longrightarrow> \<exists>a. r = Some a"
  by (auto simp: mergeHeaders_def Let_def split: prod.splits option.splits)

lemma mergeConfig_Headers_Some: "mergeConfig hk pk A B h = (fc, h1) \<Longrightarrow> \<exists>a. Headers fc = Some a"
  by (auto simp: mergeConfig_def Let_def split: prod.splits dest: mergeHeaders_Some)

lemma Request_outgoing_Inr:
  assumes "Request_outgoing lib hk pk ak c cx cfg h u = (Inr out, h1, u1)"
  obtains fc req req1 a where
    "mergeConfig hk pk (config c) cfg h = (fc, h1)"
    "NewRequestWithContext lib cx (Method fc) (URL fc) (Body fc) = Inr req"
    "Request_interceptors c req u = (Done (Inr req1), u1)"
    "Headers fc = Some a"
    "out = req1\<lparr>header := addHeaders (hdr_get h1 a) ak (header req1)\<rparr>"
proof -
  obtain fc h1' where m: "mergeConfig hk pk (config c) cfg h = (fc, h1')"
    by (cases "mergeConfig hk pk (config c) cfg h")
  obtain a where a: "Headers fc = Some a"
    using mergeConfig_Headers_Some [OF m] by blast
  have b: "prepareRequestBody fc = Inr (Body fc)"
    by (simp add: prepareRequestBody_def split: option.splits)
  from assms m a b show ?thesis
    by (auto simp: Request_outgoing_def split: sum.splits prod.splits go.splits intro: that)
qed

lemma Request_outgoing_early:
  "Request_outgoing lib hk pk ak c cx cfg h u = (Inl early, h1, u1) \<Longrightarrow>
     early = Panic \<or> (\<exists>t e. early = Done (None, Some (Wrapped t e)))"
  by (auto simp: Request_outgoing_def split: sum.splits prod.splits go.splits)

lemma ex_outgoing:
  "Request_outgoing exLib [] [] [''X-Mark''] (exClient tr [exMark ''T1'']) () exGet exHeap [] =
     (Inr (exRequest\<lparr>header := [''X-Mark'' \<mapsto> [''T1'', ''c1'', ''c2'']]\<rparr>),
      exHeap\<lparr>params_objs := [Map.empty]\<rparr>, [''T1''])"
  by (simp add: Request_outgoing_def mergeConfig_def mergeHeaders_def mergeParams_def prm_new_def
        hdr_get_def prepareRequestBody_def Request_interceptors_def ApplyRequestInterceptors_def
        exLib_def exClient_def exMark_def exGet_def exHeap_def exRequest_def Header_Add_def
        canon_X_Mark)

text \<open>
  C4. When the transport returns a response with status code at least 400, Request returns
  a RequestError with that status code and no Response; when it returns status code 200 and
  the body is read without error, Request returns a Response with status code 200 and no
  error. A RequestError is returned in the first case only: a failure of the transport is
  returned as a wrapped error, and whenever Request returns a RequestError the transport
  has returned a response with status code at least 400.
\<close>

theorem status_classification:
  "(Request_outgoing lib hk pk ak c cx cfg h u = (Inr req, h1, u1) \<and>
      httpClient c req u1 = (Inr resp, u2) \<and> statusCode resp \<ge> 400 \<longrightarrow>
      (\<exists>re. Client_Request lib hk pk ak c cx cfg h u = (Done (None, Some (RequestErr re)), h1, u2) \<and>
            RequestError.StatusCode re = statusCode resp)) \<and>
   (Request_outgoing lib hk pk ak c cx cfg h u = (Inr req, h1, u1) \<and>
      httpClient c req u1 = (Inr resp, u2) \<and> statusCode resp = 200 \<and> readAll resp = (bs, None) \<longrightarrow>
      (\<exists>r. Client_Request lib hk pk ak c cx cfg h u = (Done (Some r, None), h1, u2) \<and>
           Response.StatusCode r = 200 \<and> Response.Body r = bs)) \<and>
   (Request_outgoing lib hk pk ak c cx cfg h u = (Inr req, h1, u1) \<and>
      httpClient c req u1 = (Inl e, u2) \<longrightarrow>
      Client_Request lib hk pk ak c cx cfg h u =
        (Done (None, Some (Wrapped ''executing request'' e)), h1, u2)) \<and>
   (Client_Request lib hk pk ak c cx cfg h u = (Done (r', Some (RequestErr re')), h', u') \<longrightarrow>
      r' = None \<and>
      (\<exists>rq v rs. Request_outgoing lib hk pk ak c cx cfg h u = (Inr rq, h', v) \<and>
         httpClient c rq v = (Inr rs, u') \<and> statusCode rs \<ge> 400 \<and>
         RequestError.StatusCode re' = statusCode rs))"
proof (intro conjI impI)
  assume "Request_outgoing lib hk pk ak c cx cfg h u = (Inr req, h1, u1) \<and>
      httpClient c req u1 = (Inr resp, u2) \<and> statusCode resp \<ge> 400"
  then show "\<exists>re. Client_Request lib hk pk ak c cx cfg h u = (Done (None, Some (RequestErr re)), h1, u2) \<and>
            RequestError.StatusCode re = statusCode resp"
    by (simp add: Client_Request_def Request_exchange_def HandleResponseError_def Let_def
          split: prod.splits)
next
  assume "Request_outgoing lib hk pk ak c cx cfg h u = (Inr req, h1, u1) \<and>
      httpClient c req u1 = (Inr resp, u2) \<and> statusCode resp = 200 \<and> readAll resp = (bs, None)"
  then show "\<exists>r. Client_Request lib hk pk ak c cx cfg h u = (Done (Some r, None), h1, u2) \<and>
           Response.StatusCode r = 200 \<and> Response.Body r = bs"
    by (simp add: Client_Request_def Request_exchange_def ParseResponse_def)
next
  assume "Request_outgoing lib hk pk ak c cx cfg h u = (Inr req, h1, u1) \<and>
      httpClient c req u1 = (Inl e, u2)"
  then show "Client_Request lib hk pk ak c cx cfg h u =
        (Done (None, Some (Wrapped ''executing request'' e)), h1, u2)"
    by (simp add: Client_Request_def Request_exchange_def)
next
  assume a: "Client_Request lib hk pk ak c cx cfg h u = (Done (r', Some (RequestErr re')), h', u')"
  show "r' = None"
    using a
    by (auto simp: Client_Request_def Request_exchange_def ParseResponse_def Let_def
          split: sum.splits prod.splits if_splits option.splits dest: Request_outgoing_early)
  show "\<exists>rq v rs. Request_outgoing lib hk pk ak c cx cfg h u = (Inr rq, h', v) \<and>
         httpClient c rq v = (Inr rs, u') \<and> statusCode rs \<ge> 400 \<and>
         RequestError.StatusCode re' = statusCode rs"
    using a
    by (auto simp: Client_Request_def Request_exchange_def ParseResponse_def HandleResponseError_def Let_def
          split: sum.splits prod.splits if_splits option.splits dest: Request_outgoing_early)
qed

text \<open>
  The example client with one marking interceptor, against a transport answering 500, one
  answering 200 and one that fails.
\<close>

lemma ex_request_500:
  "Client_Request exLib [] [] [''X-Mark''] (exClient (exServe 500 ''boom'') [exMark ''T1'']) () exGet exHeap [] =
     (Done (None, Some (RequestErr \<lparr>RequestError.StatusCode = 500, RequestError.Method = ''GET'',
        RequestError.URL = ''http://a'', Message = ''Internal Server Error'', RequestError.Body = ''boom''\<rparr>)),
      exHeap\<lparr>params_objs := [Map.empty]\<rparr>, [''T1'', ''transport''])"
  by (simp add: Client_Request_def ex_outgoing)
     (simp add: Request_exchange_def HandleResponseError_def exClient_def exServe_def
        exRequest_def exLib_def)

theorem status_classification_witness:
  "(\<exists>re. Client_Request exLib [] [] [''X-Mark''] (exClient (exServe 500 ''boom'') [exMark ''T1'']) ()
            exGet exHeap [] =
          (Done (None, Some (RequestErr re)), exHeap\<lparr>params_objs := [Map.empty]\<rparr>, [''T1'', ''transport'']) \<and>
          RequestError.StatusCode re = 500) \<and>
   (\<exists>r. Client_Request exLib [] [] [''X-Mark''] (exClient (exServe 200 ''{}'') [exMark ''T1'']) ()
            exGet exHeap [] =
          (Done (Some r, None), exHeap\<lparr>params_objs := [Map.empty]\<rparr>, [''T1'', ''transport'']) \<and>
          Response.StatusCode r = 200 \<and> Response.Body r = ''{}'') \<and>
   Client_Request exLib [] [] [''X-Mark''] (exClient exDown [exMark ''T1'']) () exGet exHeap [] =
     (Done (None, Some (Wrapped ''executing request'' (External ''context canceled''))),
      exHeap\<lparr>params_objs := [Map.empty]\<rparr>, [''T1'', ''transport'']) \<and>
   (\<exists>rq v rs. Request_outgoing exLib [] [] [''X-Mark''] (exClient (exServe 500 ''boom'') [exMark ''T1'']) ()
            exGet exHeap [] = (Inr rq, exHeap\<lparr>params_objs := [Map.empty]\<rparr>, v) \<and>
          httpClient (exClient (exServe 500 ''boom'') [exMark ''T1'']) rq v = (Inr rs, [''T1'', ''transport'']) \<and>
          statusCode rs \<ge> 400 \<and> statusCode rs = 500)"
proof -
  let ?out = "exRequest\<lparr>header := [''X-Mark'' \<mapsto> [''T1'', ''c1'', ''c2'']]\<rparr>"
  let ?h1 = "exHeap\<lparr>params_objs := [Map.empty]\<rparr>"
  have o: "Request_outgoing exLib [] [] [''X-Mark''] (exClient tr [exMark ''T1'']) () exGet exHeap [] =
      (Inr ?out, ?h1, [''T1''])" for tr
    by (rule ex_outgoing)
  have t500: "httpClient (exClient (exServe 500 ''boom'') [exMark ''T1'']) ?out [''T1''] =
      (Inr \<lparr>status = [], statusCode = 500, respHeader = Map.empty, readAll = (''boom'', None),
            request = ?out\<rparr>, [''T1'', ''transport'']) \<and>
      (400::int) \<le> statusCode \<lparr>status = [], statusCode = 500, respHeader = Map.empty,
            readAll = (''boom'', None), request = ?out\<rparr>"
    by (simp add: exClient_def exServe_def)
  have t200: "httpClient (exClient (exServe 200 ''{}'') [exMark ''T1'']) ?out [''T1''] =
      (Inr \<lparr>status = [], statusCode = 200, respHeader = Map.empty, readAll = (''{}'', None),
            request = ?out\<rparr>, [''T1'', ''transport'']) \<and>
      statusCode \<lparr>status = [], statusCode = 200, respHeader = Map.empty,
            readAll = (''{}'', None), request = ?out\<rparr> = 200 \<and>
      readAll \<lparr>status = [], statusCode = 200, respHeader = Map.empty,
            readAll = (''{}'', None), request = ?out\<rparr> = (''{}'', None)"
    by (simp add: exClient_def exServe_def)
  have tdown: "httpClient (exClient exDown [exMark ''T1'']) ?out [''T1''] =
      (Inl (External ''context canceled''), [''T1'', ''transport''])"
    by (simp add: exClient_def exDown_def)
  have c1: "\<exists>re. Client_Request exLib [] [] [''X-Mark''] (exClient (exServe 500 ''boom'') [exMark ''T1'']) ()
            exGet exHeap [] =
          (Done (None, Some (RequestErr re)), ?h1, [''T1'', ''transport'']) \<and>
          RequestError.StatusCode re = 500"
    using status_classification [THEN conjunct1, rule_format, OF conjI [OF o t500]] by simp
  have c2: "\<exists>r. Client_Request exLib [] [] [''X-Mark''] (exClient (exServe 200 ''{}'') [exMark ''T1'']) ()
            exGet exHeap [] =
          (Done (Some r, None), ?h1, [''T1'', ''transport'']) \<and>
          Response.StatusCode r = 200 \<and> Response.Body r = ''{}''"
    using status_classification [THEN conjunct2, THEN conjunct1, rule_format, OF conjI [OF o t200]] by simp
  have c3: "Client_Request exLib [] [] [''X-Mark''] (exClient exDown [exMark ''T1'']) () exGet exHeap [] =
     (Done (None, Some (Wrapped ''executing request'' (External ''context canceled''))),
      ?h1, [''T1'', ''transport''])"
    using status_classification [THEN conjunct2, THEN conjunct2, THEN conjunct1, rule_format,
        OF conjI [OF o tdown]] by simp
  have c4: "\<exists>rq v rs. Request_outgoing exLib [] [] [''X-Mark''] (exClient (exServe 500 ''boom'') [exMark ''T1'']) ()
            exGet exHeap [] = (Inr rq, ?h1, v) \<and>
          httpClient (exClient (exServe 500 ''boom'') [exMark ''T1'']) rq v = (Inr rs, [''T1'', ''transport'']) \<and>
          statusCode rs \<ge> 400 \<and> statusCode rs = 500"
    using status_classification [THEN conjunct2, THEN conjunct2, THEN conjunct2, rule_format,
        OF ex_request_500] by simp
  from c1 c2 c3 c4 show ?thesis by blast
qed


lemma prepareRequestBody_eq: "prepareRequestBody fc = Inr (Body fc)"
  by (simp add: prepareRequestBody_def split: option.splits)

lemma ApplyRequestInterceptors_from_Response_update:
  "ApplyRequestInterceptors_from idx (map (\<lambda>i. i\<lparr>Response := g i\<rparr>) xs) req u =
     ApplyRequestInterceptors_from idx xs req u"
  by (induction xs arbitrary: idx req u) (auto split: option.splits prod.splits sum.splits)

lemma Request_interceptors_withResponses:
  "Request_interceptors (withResponses g c) req u = Request_interceptors c req u"
  by (cases "interceptorManager c")
     (simp_all add: Request_interceptors_def withResponses_def
        ApplyRequestInterceptors_def ApplyRequestInterceptors_from_Response_update)

lemma config_withResponses: "config (withResponses g c) = config c"
  by (simp add: withResponses_def)

lemma httpClient_withResponses: "httpClient (withResponses g c) = httpClient c"
  by (simp add: withResponses_def)

lemma Request_outgoing_withResponses:
  "Request_outgoing lib hk pk ak (withResponses g c) cx cfg h u = Request_outgoing lib hk pk ak c cx cfg h u"
  unfolding Request_outgoing_def Request_interceptors_withResponses config_withResponses ..

text \<open>
  C6. Request applies the request interceptors before it calls the transport: when the
  transport is called, the request it gets is the result of the request interceptors on
  the request just built (with the headers of the configuration added), in the state they
  left; and when a request interceptor fails, Request returns the wrapped error in the state
  the interceptors left, without calling the transport. Request never calls a response
  transform: whatever the response transforms of the client are replaced by, the result
  and the final state of Request are the same.
\<close>

theorem request_stage_before_transport_response_stage_never:
  "(Request_outgoing lib hk pk ak c cx cfg h u = (Inr out, h1, u1) \<longrightarrow>
      (\<exists>fc req req1.
          mergeConfig hk pk (config c) cfg h = (fc, h1) \<and>
          NewRequestWithContext lib cx (Method fc) (URL fc) (Body fc) = Inr req \<and>
          (case interceptorManager c of
             None \<Rightarrow> req1 = req \<and> u1 = u
           | Some im \<Rightarrow> ApplyRequestInterceptors im req u = (Done (Inr req1), u1)) \<and>
          out\<lparr>header := header req1\<rparr> = req1) \<and>
      Client_Request lib hk pk ak c cx cfg h u = Request_exchange lib c out h1 u1) \<and>
   (mergeConfig hk pk (config c) cfg h = (fc', h1') \<and>
    NewRequestWithContext lib cx (Method fc') (URL fc') (Body fc') = Inr req' \<and>
    interceptorManager c = Some im \<and>
    ApplyRequestInterceptors im req' u = (Done (Inl err), u1') \<longrightarrow>
      Client_Request lib hk pk ak c cx cfg h u =
        (Done (None, Some (Wrapped ''applying request interceptors'' err)), h1', u1')) \<and>
   Client_Request lib hk pk ak (withResponses g c) cx cfg h u = Client_Request lib hk pk ak c cx cfg h u"
proof (intro conjI impI)
  assume a: "Request_outgoing lib hk pk ak c cx cfg h u = (Inr out, h1, u1)"
  then show "\<exists>fc req req1.
          mergeConfig hk pk (config c) cfg h = (fc, h1) \<and>
          NewRequestWithContext lib cx (Method fc) (URL fc) (Body fc) = Inr req \<and>
          (case interceptorManager c of
             None \<Rightarrow> req1 = req \<and> u1 = u
           | Some im \<Rightarrow> ApplyRequestInterceptors im req u = (Done (Inr req1), u1)) \<and>
          out\<lparr>header := header req1\<rparr> = req1"
    by (elim Request_outgoing_Inr) (auto simp: Request_interceptors_def split: option.splits)
  from a show "Client_Request lib hk pk ak c cx cfg h u = Request_exchange lib c out h1 u1"
    by (simp add: Client_Request_def)
next
  assume "mergeConfig hk pk (config c) cfg h = (fc', h1') \<and>
    NewRequestWithContext lib cx (Method fc') (URL fc') (Body fc') = Inr req' \<and>
    interceptorManager c = Some im \<and>
    ApplyRequestInterceptors im req' u = (Done (Inl err), u1')"
  then show "Client_Request lib hk pk ak c cx cfg h u =
        (Done (None, Some (Wrapped ''applying request interceptors'' err)), h1', u1')"
    by (simp add: Client_Request_def Request_outgoing_def Request_interceptors_def
          prepareRequestBody_eq)
next
  show "Client_Request lib hk pk ak (withResponses g c) cx cfg h u = Client_Request lib hk pk ak c cx cfg h u"
    unfolding Client_Request_def Request_outgoing_withResponses Request_exchange_def
      httpClient_withResponses ..
qed


text \<open>
  The example client: the state after Request holds the name of the interceptor once, from
  its request transform; with a failing second interceptor the transport is not reached.
\<close>

lemma ex_mergeConfig:
  "mergeConfig [] [] (config (exClient tr is)) exGet exHeap =
     (\<lparr>Method = ''GET'', URL = ''http://a'', Headers = Some 0, Params = Some 0, Body = None, Timeout = 10\<rparr>,
      exHeap\<lparr>params_objs := [Map.empty]\<rparr>)"
  by (simp add: mergeConfig_def mergeHeaders_def mergeParams_def prm_new_def exClient_def exGet_def
        exHeap_def)

lemma ex_fold_fails:
  "ApplyRequestInterceptors \<lparr>interceptors = [exMark ''T0'', exFail ''T1'']\<rparr> exRequest [] =
     (Done (Inl (Wrapped ''request interceptor 1 failed'' (External ''T1''))), [''T0'', ''T1''])"
  by (simp add: ApplyRequestInterceptors_def exMark_def exFail_def itoa_1)

theorem request_stage_before_transport_response_stage_never_witness:
  "Request_outgoing exLib [] [] [''X-Mark''] (exClient (exServe 200 ''{}'') [exMark ''T1'']) () exGet exHeap [] =
     (Inr (exRequest\<lparr>header := [''X-Mark'' \<mapsto> [''T1'', ''c1'', ''c2'']]\<rparr>),
      exHeap\<lparr>params_objs := [Map.empty]\<rparr>, [''T1'']) \<and>
   Client_Request exLib [] [] [''X-Mark''] (exClient (exServe 200 ''{}'') [exMark ''T1'']) () exGet exHeap [] =
     Request_exchange exLib (exClient (exServe 200 ''{}'') [exMark ''T1''])
       (exRequest\<lparr>header := [''X-Mark'' \<mapsto> [''T1'', ''c1'', ''c2'']]\<rparr>)
       (exHeap\<lparr>params_objs := [Map.empty]\<rparr>) [''T1''] \<and>
   interceptorManager (exClient (exServe 200 ''{}'') [exMark ''T0'', exFail ''T1'']) =
     Some \<lparr>interceptors = [exMark ''T0'', exFail ''T1'']\<rparr> \<and>
   Client_Request exLib [] [] [''X-Mark''] (exClient (exServe 200 ''{}'') [exMark ''T0'', exFail ''T1'']) ()
       exGet exHeap [] =
     (Done (None, Some (Wrapped ''applying request interceptors''
        (Wrapped ''request interceptor 1 failed'' (External ''T1'')))),
      exHeap\<lparr>params_objs := [Map.empty]\<rparr>, [''T0'', ''T1'']) \<and>
   Client_Request exLib [] [] [''X-Mark'']
       (withResponses (\<lambda>i. None) (exClient (exServe 200 ''{}'') [exMark ''T1''])) () exGet exHeap [] =
     Client_Request exLib [] [] [''X-Mark''] (exClient (exServe 200 ''{}'') [exMark ''T1'']) () exGet exHeap []"
proof -
  let ?c = "exClient (exServe 200 ''{}'') [exMark ''T1'']"
  let ?c' = "exClient (exServe 200 ''{}'') [exMark ''T0'', exFail ''T1'']"
  let ?h1 = "exHeap\<lparr>params_objs := [Map.empty]\<rparr>"
  have o: "Request_outgoing exLib [] [] [''X-Mark''] ?c () exGet exHeap [] =
     (Inr (exRequest\<lparr>header := [''X-Mark'' \<mapsto> [''T1'', ''c1'', ''c2'']]\<rparr>), ?h1, [''T1''])"
    by (rule ex_outgoing)
  have p1: "Client_Request exLib [] [] [''X-Mark''] ?c () exGet exHeap [] =
     Request_exchange exLib ?c (exRequest\<lparr>header := [''X-Mark'' \<mapsto> [''T1'', ''c1'', ''c2'']]\<rparr>) ?h1 [''T1'']"
    using request_stage_before_transport_response_stage_never
      [THEN conjunct1, rule_format, OF o] by simp
  have m: "interceptorManager ?c' = Some \<lparr>interceptors = [exMark ''T0'', exFail ''T1'']\<rparr>"
    by (simp add: exClient_def)
  have n: "NewRequestWithContext exLib ()
      (Method \<lparr>Method = ''GET'', URL = ''http://a'', Headers = Some 0, Params = Some 0, Body = None, Timeout = 10\<rparr>)
      (URL \<lparr>Method = ''GET'', URL = ''http://a'', Headers = Some 0, Params = Some 0, Body = None, Timeout = 10\<rparr>)
      (Body \<lparr>Method = ''GET'', URL = ''http://a'', Headers = Some 0, Params = Some 0, Body = None, Timeout = 10\<rparr>) =
      Inr exRequest"
    by (simp add: exLib_def exRequest_def)
  have p2: "Client_Request exLib [] [] [''X-Mark''] ?c' () exGet exHeap [] =
     (Done (None, Some (Wrapped ''applying request interceptors''
        (Wrapped ''request interceptor 1 failed'' (External ''T1'')))), ?h1, [''T0'', ''T1''])"
    using request_stage_before_transport_response_stage_never
      [THEN conjunct2, THEN conjunct1, rule_format,
        OF conjI [OF ex_mergeConfig conjI [OF n conjI [OF m ex_fold_fails]]]] .
  have p3: "Client_Request exLib [] [] [''X-Mark''] (withResponses (\<lambda>i. None) ?c) () exGet exHeap [] =
     Client_Request exLib [] [] [''X-Mark''] ?c () exGet exHeap []"
    using request_stage_before_transport_response_stage_never
      [THEN conjunct2, THEN conjunct2] .
  from o p1 m p2 p3 show ?thesis by blast
qed

lemma fold_Header_Add:
  "values_at (fold (\<lambda>v rh. Header_Add rh key v) vals rh) K =
     values_at rh K @ (if CanonicalMIMEHeaderKey key = K then vals else [])"
  by (induction vals arbitrary: rh) (auto simp: Header_Add_def values_at_def split: option.splits)

lemma addHeaders_values:
  "values_at (addHeaders cfgH keys rh) K =
     values_at rh K @ concat (map (values_at cfgH) (filter (\<lambda>k. CanonicalMIMEHeaderKey k = K) keys))"
proof (induction keys arbitrary: rh)
  case Nil
  then show ?case by simp
next
  case (Cons key keys)
  show ?case
  proof (cases "cfgH key")
    case None
    then show ?thesis using Cons [of rh] by (simp add: values_at_def)
  next
    case (Some vals)
    then show ?thesis
      using Cons [of "fold (\<lambda>v rh. Header_Add rh key v) vals rh"]
      by (simp add: fold_Header_Add) (simp add: values_at_def)
  qed
qed

lemma concat_filter_member:
  assumes "k \<in> set keys" "P k"
  shows "\<exists>before after. concat (map f (filter P keys)) = before @ f k @ after"
proof -
  from assms(1) obtain xs ys where "keys = xs @ k # ys"
    by (auto dest: split_list)
  with assms(2) have "concat (map f (filter P keys)) =
      concat (map f (filter P xs)) @ f k @ concat (map f (filter P ys))"
    by simp
  then show ?thesis by blast
qed

text \<open>
  C9. When Request reaches the transport, the request it hands over has, under every key,
  the values that the request had after the request interceptors, followed by the values of
  the final configuration for the keys with that canonical form, in the order in which the
  loop visits them: every value is added, none replaces another. In particular the whole
  value list of every key the loop visits is there, after the values already on the request.
\<close>

theorem config_headers_added:
  assumes "Request_outgoing lib hk pk ak c cx cfg h u = (Inr out, h1, u1)"
  shows "\<exists>fc req req1 a.
           mergeConfig hk pk (config c) cfg h = (fc, h1) \<and> Headers fc = Some a \<and>
           Request_interceptors c req u = (Done (Inr req1), u1) \<and>
           (\<forall>K. values_at (header out) K =
                  values_at (header req1) K @
                  concat (map (values_at (hdr_get h1 a))
                    (filter (\<lambda>k. CanonicalMIMEHeaderKey k = K) ak))) \<and>
           (\<forall>k vs. k \<in> set ak \<and> hdr_get h1 a k = Some vs \<longrightarrow>
                  (\<exists>before after. values_at (header out) (CanonicalMIMEHeaderKey k) =
                     values_at (header req1) (CanonicalMIMEHeaderKey k) @ before @ vs @ after))"
proof -
  from assms obtain fc req req1 a where *:
    "mergeConfig hk pk (config c) cfg h = (fc, h1)"
    "Request_interceptors c req u = (Done (Inr req1), u1)"
    "Headers fc = Some a"
    "out = req1\<lparr>header := addHeaders (hdr_get h1 a) ak (header req1)\<rparr>"
    by (rule Request_outgoing_Inr)
  have v: "values_at (header out) K =
      values_at (header req1) K @
      concat (map (values_at (hdr_get h1 a)) (filter (\<lambda>k. CanonicalMIMEHeaderKey k = K) ak))" for K
    using *(4) by (simp add: addHeaders_values)
  have "\<exists>before after. values_at (header out) (CanonicalMIMEHeaderKey k) =
      values_at (header req1) (CanonicalMIMEHeaderKey k) @ before @ vs @ after"
    if "k \<in> set ak" "hdr_get h1 a k = Some vs" for k vs
  proof -
    from that(2) have "values_at (hdr_get h1 a) k = vs"
      by (simp add: values_at_def)
    with concat_filter_member [of k ak "\<lambda>k'. CanonicalMIMEHeaderKey k' = CanonicalMIMEHeaderKey k"
        "values_at (hdr_get h1 a)"] that(1)
    show ?thesis by (auto simp: v)
  qed
  with * v show ?thesis by blast
qed

text \<open>
  The example client: the interceptor puts T1 under X-Mark, the configuration has c1 and c2
  there, and the outgoing request has T1, c1, c2.
\<close>

theorem config_headers_added_witness:
  "Request_outgoing exLib [] [] [''X-Mark''] (exClient (exServe 200 ''{}'') [exMark ''T1'']) () exGet exHeap [] =
     (Inr (exRequest\<lparr>header := [''X-Mark'' \<mapsto> [''T1'', ''c1'', ''c2'']]\<rparr>),
      exHeap\<lparr>params_objs := [Map.empty]\<rparr>, [''T1'']) \<and>
   (\<exists>fc req req1 a.
       mergeConfig [] [] (config (exClient (exServe 200 ''{}'') [exMark ''T1''])) exGet exHeap =
         (fc, exHeap\<lparr>params_objs := [Map.empty]\<rparr>) \<and>
       Headers fc = Some a \<and>
       Request_interceptors (exClient (exServe 200 ''{}'') [exMark ''T1'']) req [] = (Done (Inr req1), [''T1'']) \<and>
       (\<forall>K. values_at (header (exRequest\<lparr>header := [''X-Mark'' \<mapsto> [''T1'', ''c1'', ''c2'']]\<rparr>)) K =
              values_at (header req1) K @
              concat (map (values_at (hdr_get (exHeap\<lparr>params_objs := [Map.empty]\<rparr>) a))
                (filter (\<lambda>k. CanonicalMIMEHeaderKey k = K) [''X-Mark'']))) \<and>
       (\<forall>k vs. k \<in> set [''X-Mark''] \<and> hdr_get (exHeap\<lparr>params_objs := [Map.empty]\<rparr>) a k = Some vs \<longrightarrow>
              (\<exists>before after.
                 values_at (header (exRequest\<lparr>header := [''X-Mark'' \<mapsto> [''T1'', ''c1'', ''c2'']]\<rparr>))
                   (CanonicalMIMEHeaderKey k) =
                 values_at (header req1) (CanonicalMIMEHeaderKey k) @ before @ vs @ after)))"
proof -
  have o: "Request_outgoing exLib [] [] [''X-Mark''] (exClient (exServe 200 ''{}'') [exMark ''T1'']) () exGet exHeap [] =
     (Inr (exRequest\<lparr>header := [''X-Mark'' \<mapsto> [''T1'', ''c1'', ''c2'']]\<rparr>),
      exHeap\<lparr>params_objs := [Map.empty]\<rparr>, [''T1''])"
    by (rule ex_outgoing)
  show ?thesis
    using o config_headers_added [OF o] by (rule conjI)
qed

text \<open>
  C10. CancelableRequest returns, for every context and configuration, exactly what
  Request returns, and has the same effects; it adds no behaviour of its own.
\<close>

theorem CancelableRequest_is_Request:
  "CancelableRequest lib hkeys pkeys akeys c cx cfg h u =
     Client_Request lib hkeys pkeys akeys c cx cfg h u"
  by (simp add: CancelableRequest_def)

end
